theory Spec2Isabelle
  imports Main
begin

section \<open>JavaScript strings and numbers\<close>

text \<open>
  Strings are \<^typ>\<open>string\<close>; every character stands for one code unit. The white
  space of \<^verbatim>\<open>trim\<close>, \<^verbatim>\<open>\s\<close> and \<^verbatim>\<open>parseInt\<close> is the ASCII white space
  (tab, line feed, vertical tab, form feed, carriage return, space); the white space
  characters of Unicode beyond ASCII are not part of the alphabet of the model.
  A value that may be \<^verbatim>\<open>undefined\<close> or \<^verbatim>\<open>null\<close> is an option, a number that
  may be \<^verbatim>\<open>NaN\<close> is an \<^typ>\<open>int option\<close>. Numbers are exact integers; JavaScript's
  doubles agree with them below \<open>2^53\<close>.
\<close>

definition js_space :: "char \<Rightarrow> bool" where
  "js_space c = (c \<in> set [CHR 0x09, CHR 0x0A, CHR 0x0B, CHR 0x0C, CHR 0x0D, CHR '' ''])"

definition trim :: "string \<Rightarrow> string" where
  "trim s = rev (dropWhile js_space (rev (dropWhile js_space s)))"

text \<open>\<^verbatim>\<open>s.split(c)\<close> for a separator of one character: never empty.\<close>

fun split :: "char \<Rightarrow> string \<Rightarrow> string list" where
  "split c [] = [[]]"
| "split c (x # xs) =
     (if x = c then [] # split c xs
      else (case split c xs of [] \<Rightarrow> [[x]] | y # ys \<Rightarrow> (x # y) # ys))"

definition lines :: "string \<Rightarrow> string list" where
  "lines s = split (CHR 0x0A) s"

text \<open>\<^verbatim>\<open>s.replace(/\r$/, '')\<close>: one carriage return at the very end is removed.\<close>

definition drop_cr :: "string \<Rightarrow> string" where
  "drop_cr s = (if s \<noteq> [] \<and> last s = CHR 0x0D then butlast s else s)"

text \<open>
  \<^verbatim>\<open>s.split(/\r?\n/)\<close>: the separator is a line feed with the carriage return before
  it, if there is one; the last piece keeps its carriage return.
\<close>

definition lines_crlf :: "string \<Rightarrow> string list" where
  "lines_crlf s = (let ps = lines s in map drop_cr (butlast ps) @ [last ps])"

text \<open>\<^verbatim>\<open>xs.filter(Boolean)\<close> on strings: the empty string is falsy.\<close>

definition filter_Boolean :: "string list \<Rightarrow> string list" where
  "filter_Boolean xs = filter (\<lambda>s. s \<noteq> []) xs"

text \<open>\<^verbatim>\<open>a || b\<close> on strings.\<close>

definition or_else :: "string \<Rightarrow> string \<Rightarrow> string" where
  "or_else a b = (if a = [] then b else a)"

text \<open>Array destructuring \<^verbatim>\<open>const [a, b, ...] = xs\<close>: a missing element is undefined.\<close>

definition elem :: "'a list \<Rightarrow> nat \<Rightarrow> 'a option" where
  "elem xs i = (if i < length xs then Some (xs ! i) else None)"

fun starts_with :: "string \<Rightarrow> string \<Rightarrow> bool" where
  "starts_with s [] = True"
| "starts_with [] (p # ps) = False"
| "starts_with (c # cs) (p # ps) = (c = p \<and> starts_with cs ps)"

definition ends_with :: "string \<Rightarrow> string \<Rightarrow> bool" where
  "ends_with s p = starts_with (rev s) (rev p)"


text \<open>\<^verbatim>\<open>s.replace(p, '')\<close> with a string pattern: the first occurrence is removed.\<close>

fun remove_first :: "string \<Rightarrow> string \<Rightarrow> string" where
  "remove_first p [] = []"
| "remove_first p (c # cs) =
     (if starts_with (c # cs) p then drop (length p) (c # cs) else c # remove_first p cs)"

text \<open>\<^verbatim>\<open>s.indexOf('/')\<close> with \<open>-1\<close> as \<open>None\<close>.\<close>

fun index_of :: "char \<Rightarrow> string \<Rightarrow> nat option" where
  "index_of c [] = None"
| "index_of c (x # xs) =
     (if x = c then Some 0 else (case index_of c xs of None \<Rightarrow> None | Some i \<Rightarrow> Some (Suc i)))"

text \<open>\<^verbatim>\<open>parseInt(s)\<close> without a radix.\<close>

definition digit_val :: "char \<Rightarrow> nat" where
  "digit_val c =
     (let n = (of_char c :: nat) in
      if 48 \<le> n \<and> n \<le> 57 then n - 48
      else if 97 \<le> n \<and> n \<le> 122 then n - 87
      else if 65 \<le> n \<and> n \<le> 90 then n - 55
      else 36)"

definition digits_val :: "nat \<Rightarrow> string \<Rightarrow> nat" where
  "digits_val r ds = foldl (\<lambda>a c. a * r + digit_val c) 0 ds"

definition parseInt :: "string \<Rightarrow> int option" where
  "parseInt s =
     (let s1 = dropWhile js_space s;
          neg = starts_with s1 ''-'';
          s2 = (if starts_with s1 ''-'' \<or> starts_with s1 ''+'' then tl s1 else s1);
          hex = (starts_with s2 ''0x'' \<or> starts_with s2 ''0X'');
          r = (if hex then 16 else 10);
          s3 = (if hex then drop 2 s2 else s2);
          ds = takeWhile (\<lambda>c. digit_val c < r) s3
      in if ds = [] then None
         else Some (if neg then - int (digits_val r ds) else int (digits_val r ds)))"

text \<open>\<^verbatim>\<open>n || 0\<close> on a number: \<^verbatim>\<open>NaN\<close> and \<open>0\<close> are falsy.\<close>

definition num_or_0 :: "int option \<Rightarrow> int" where
  "num_or_0 n = (case n of None \<Rightarrow> 0 | Some k \<Rightarrow> k)"

text \<open>A number in a template string (integers below \<open>10^21\<close> print in decimal).\<close>

fun dec :: "nat \<Rightarrow> string" where
  "dec n = (if n < 10 then [char_of (48 + n)] else dec (n div 10) @ [char_of (48 + n mod 10)])"

declare dec.simps [simp del]

definition num_str :: "int option \<Rightarrow> string" where
  "num_str n =
     (case n of None \<Rightarrow> ''NaN''
      | Some k \<Rightarrow> if k < 0 then CHR ''-'' # dec (nat (- k)) else dec (nat k))"

text \<open>A string that may be undefined, or that may be null, in a template string.\<close>

definition str :: "string option \<Rightarrow> string" where
  "str s = (case s of None \<Rightarrow> ''undefined'' | Some t \<Rightarrow> t)"

definition str_null :: "string option \<Rightarrow> string" where
  "str_null s = (case s of None \<Rightarrow> ''null'' | Some t \<Rightarrow> t)"

section \<open>The process: shell, operator, terminal\<close>

text \<open>
  The world outside a tool is a parameter. The shell is an oracle: the answer to a
  command depends on the command and on how many commands ran before it (the
  repository changes under the tool's own commands). The operator is a script of
  responses, one per submission to a prompt. What the tool does is recorded in a trace:
  lines written to the console, prompts rendered, responses taken, commands run.
  The text of a console message is rendered by an ASCII key and the values
  interpolated into it; equal source texts have equal keys.
\<close>

datatype cmd =
    Exec string  \<comment> \<open>\<^verbatim>\<open>execSync(cmd)\<close>: a command line for the shell\<close>
  | Spawn string "string list"  \<comment> \<open>\<^verbatim>\<open>spawnSync(file, args)\<close>\<close>
  | SpawnInput string "string list" string  \<comment> \<open>\<^verbatim>\<open>spawnSync(file, args, {input})\<close>\<close>

datatype proc = Proc (status: "int option") (stdout: string) (stderr: string)

datatype input =
    Pick nat  \<comment> \<open>enter, with the cursor on the choice of this index\<close>
  | Ticks "bool list"  \<comment> \<open>enter, with these choices of a multi-select ticked\<close>
  | Typed string  \<comment> \<open>enter, after typing this text\<close>
  | Answer bool  \<comment> \<open>yes or no to a confirm prompt\<close>
  | Interrupt  \<comment> \<open>Ctrl+C\<close>

datatype event =
    Log string "string list"  \<comment> \<open>\<^verbatim>\<open>console.log\<close>\<close>
  | Err string "string list"  \<comment> \<open>\<^verbatim>\<open>console.error\<close>\<close>
  | Asked string "string list" "string option list"  \<comment> \<open>a prompt, with the names of its choices\<close>
  | Got input  \<comment> \<open>a response taken by the prompt\<close>
  | Invalid  \<comment> \<open>the validation message of an input prompt\<close>
  | Ran cmd

record env =
  shell :: "nat \<Rightarrow> cmd \<Rightarrow> proc"
  platform :: string  \<comment> \<open>\<^verbatim>\<open>process.platform\<close>\<close>
  argv :: "string list"  \<comment> \<open>\<^verbatim>\<open>process.argv.slice(2)\<close>\<close>

record world =
  inputs :: "input list"
  clock :: nat
  trace :: "event list"

datatype exn =
    Cancelled  \<comment> \<open>a prompt rejects with the empty string when the operator interrupts it\<close>
  | ExecError cmd  \<comment> \<open>\<^verbatim>\<open>execSync\<close> throws when the command fails\<close>
  | TypeError  \<comment> \<open>a property of \<^verbatim>\<open>undefined\<close> is read\<close>

datatype 'a outcome =
    Ret 'a
  | Throw exn
  | Exit int  \<comment> \<open>\<^verbatim>\<open>process.exit(n)\<close>\<close>
  | Blocked  \<comment> \<open>a prompt waits: the script has no response that fits it\<close>

type_synonym 'a prog = "world \<Rightarrow> 'a outcome \<times> world"

definition ret :: "'a \<Rightarrow> 'a prog" where
  "ret x w = (Ret x, w)"

definition throw :: "exn \<Rightarrow> 'a prog" where
  "throw x w = (Throw x, w)"

definition exit :: "int \<Rightarrow> 'a prog" where
  "exit n w = (Exit n, w)"

definition bind :: "'a prog \<Rightarrow> ('a \<Rightarrow> 'b prog) \<Rightarrow> 'b prog" where
  "bind m f w =
     (case m w of
        (Ret x, w') \<Rightarrow> f x w'
      | (Throw x, w') \<Rightarrow> (Throw x, w')
      | (Exit n, w') \<Rightarrow> (Exit n, w')
      | (Blocked, w') \<Rightarrow> (Blocked, w'))"

definition seq :: "'a prog \<Rightarrow> 'b prog \<Rightarrow> 'b prog" where
  "seq m n = bind m (\<lambda>_. n)"

text \<open>\<^verbatim>\<open>try { m } catch (x) { h x }\<close>\<close>

definition try_catch :: "'a prog \<Rightarrow> (exn \<Rightarrow> 'a prog) \<Rightarrow> 'a prog" where
  "try_catch m h w = (case m w of (Throw x, w') \<Rightarrow> h x w' | rw \<Rightarrow> rw)"

definition emit :: "event \<Rightarrow> unit prog" where
  "emit ev w = (Ret (), w\<lparr>trace := trace w @ [ev]\<rparr>)"

definition log :: "string \<Rightarrow> string list \<Rightarrow> unit prog" where
  "log key vals = emit (Log key vals)"

definition err :: "string \<Rightarrow> string list \<Rightarrow> unit prog" where
  "err key vals = emit (Err key vals)"

text \<open>\<^verbatim>\<open>xs.forEach(f)\<close> and \<^verbatim>\<open>for (const x of xs) f(x)\<close>\<close>

fun for_each :: "('a \<Rightarrow> unit prog) \<Rightarrow> 'a list \<Rightarrow> unit prog" where
  "for_each f [] = ret ()"
| "for_each f (x # xs) = seq (f x) (for_each f xs)"

text \<open>
  \<^verbatim>\<open>spawnSync\<close> returns the result of the child, whatever its status; an argument that
  is undefined reaches the child as the text \<^verbatim>\<open>undefined\<close> (see \<^const>\<open>str\<close>).
  \<^verbatim>\<open>execSync\<close> returns the standard output and throws when the status is not 0.
\<close>

definition call :: "env \<Rightarrow> cmd \<Rightarrow> proc prog" where
  "call e c w = (Ret (shell e (clock w) c), w\<lparr>clock := Suc (clock w), trace := trace w @ [Ran c]\<rparr>)"

definition spawnSync :: "env \<Rightarrow> string \<Rightarrow> string list \<Rightarrow> proc prog" where
  "spawnSync e file args = call e (Spawn file args)"

definition execSync :: "env \<Rightarrow> string \<Rightarrow> string prog" where
  "execSync e c =
     bind (call e (Exec c)) (\<lambda>r. if status r = Some 0 then ret (stdout r) else throw (ExecError (Exec c)))"

subsection \<open>Prompts\<close>

text \<open>
  The prompts of the Enquirer library, which is not part of the repository, as the
  tools use them: a select returns the name of the choice under the cursor (a disabled
  choice cannot be taken), a multi-select the names of the ticked choices in the order
  of the list, an input the text typed once its validation accepts it (it shows the
  validation message and waits again otherwise), a confirm a boolean. An interrupt
  rejects the prompt with the empty string. The labels of the choices and the initial
  position of the cursor are not modelled.
\<close>

definition select_from :: "string \<Rightarrow> string list \<Rightarrow> ('n \<Rightarrow> string option) \<Rightarrow> ('n \<times> bool) list \<Rightarrow> 'n prog" where
  "select_from key vals name_of choices w =
     (let w1 = w\<lparr>trace := trace w @ [Asked key vals (map (\<lambda>c. name_of (fst c)) choices)]\<rparr> in
      case inputs w of
        Pick i # rest \<Rightarrow>
          if i < length choices \<and> \<not> snd (choices ! i)
          then (Ret (fst (choices ! i)), w1\<lparr>inputs := rest, trace := trace w1 @ [Got (Pick i)]\<rparr>)
          else (Blocked, w1)
      | Interrupt # rest \<Rightarrow>
          (Throw Cancelled, w1\<lparr>inputs := rest, trace := trace w1 @ [Got Interrupt]\<rparr>)
      | _ \<Rightarrow> (Blocked, w1))"

definition select :: "string \<Rightarrow> string list \<Rightarrow> string list \<Rightarrow> string prog" where
  "select key vals names = select_from key vals Some (map (\<lambda>n. (n, False)) names)"

definition multiselect_from :: "string \<Rightarrow> string list \<Rightarrow> ('n \<Rightarrow> string option) \<Rightarrow> 'n list \<Rightarrow> 'n list prog" where
  "multiselect_from key vals name_of names w =
     (let w1 = w\<lparr>trace := trace w @ [Asked key vals (map name_of names)]\<rparr> in
      case inputs w of
        Ticks marks # rest \<Rightarrow>
          (Ret (map fst (filter snd (zip names marks))),
           w1\<lparr>inputs := rest, trace := trace w1 @ [Got (Ticks marks)]\<rparr>)
      | Interrupt # rest \<Rightarrow>
          (Throw Cancelled, w1\<lparr>inputs := rest, trace := trace w1 @ [Got Interrupt]\<rparr>)
      | _ \<Rightarrow> (Blocked, w1))"

definition multiselect :: "string \<Rightarrow> string list \<Rightarrow> string list \<Rightarrow> string list prog" where
  "multiselect key vals names = multiselect_from key vals Some names"

definition confirm :: "string \<Rightarrow> string list \<Rightarrow> bool prog" where
  "confirm key vals w =
     (let w1 = w\<lparr>trace := trace w @ [Asked key vals []]\<rparr> in
      case inputs w of
        Answer b # rest \<Rightarrow> (Ret b, w1\<lparr>inputs := rest, trace := trace w1 @ [Got (Answer b)]\<rparr>)
      | Interrupt # rest \<Rightarrow>
          (Throw Cancelled, w1\<lparr>inputs := rest, trace := trace w1 @ [Got Interrupt]\<rparr>)
      | _ \<Rightarrow> (Blocked, w1))"

text \<open>
  The submissions to an input prompt: the outcome, the script that is left, and what
  the prompt showed on the way.
\<close>

fun submissions :: "(string \<Rightarrow> bool) \<Rightarrow> input list \<Rightarrow> string outcome \<times> input list \<times> event list" where
  "submissions valid (Typed s # rest) =
     (if valid s then (Ret s, rest, [Got (Typed s)])
      else (case submissions valid rest of (r, rest', evs) \<Rightarrow> (r, rest', Got (Typed s) # Invalid # evs)))"
| "submissions valid (Interrupt # rest) = (Throw Cancelled, rest, [Got Interrupt])"
| "submissions valid ins = (Blocked, ins, [])"

definition input_prompt :: "string \<Rightarrow> string list \<Rightarrow> (string \<Rightarrow> bool) \<Rightarrow> string prog" where
  "input_prompt key vals valid w =
     (case submissions valid (inputs w) of
        (r, rest, evs) \<Rightarrow> (r, w\<lparr>inputs := rest, trace := trace w @ Asked key vals [] # evs\<rparr>))"

text \<open>
  A tool as a process: it starts with a script and an empty trace. A return from the
  main function ends the process with code 0, an exception that nothing catches with
  code 1; a process that waits at a prompt has no exit code.
\<close>

definition start :: "input list \<Rightarrow> world" where
  "start ins = \<lparr>inputs = ins, clock = 0, trace = []\<rparr>"

definition process :: "unit prog \<Rightarrow> input list \<Rightarrow> int option \<times> event list" where
  "process main ins =
     (case main (start ins) of
        (Ret _, w) \<Rightarrow> (Some 0, trace w)
      | (Exit n, w) \<Rightarrow> (Some n, trace w)
      | (Throw _, w) \<Rightarrow> (Some 1, trace w)
      | (Blocked, w) \<Rightarrow> (None, trace w))"

definition emits :: "event list \<Rightarrow> unit prog" where
  "emits evs = for_each emit evs"

text \<open>The message of a caught exception, as the tools print it.\<close>

fun exn_text :: "exn \<Rightarrow> string" where
  "exn_text Cancelled = []"
| "exn_text (ExecError (Exec c)) = ''Command failed: '' @ c"
| "exn_text (ExecError _) = ''Command failed''"
| "exn_text TypeError = ''Cannot read properties of undefined''"

section \<open>The reset tool (res.js)\<close>

subsection \<open>Git Inspector\<close>

definition run :: "env \<Rightarrow> string \<Rightarrow> bool \<Rightarrow> string prog" where
  "run e c ignoreError =
     try_catch (bind (execSync e c) (\<lambda>out. ret (trim out)))
       (\<lambda>x. if ignoreError then ret [] else throw x)"

definition isGitRepo :: "env \<Rightarrow> bool prog" where
  "isGitRepo e =
     bind (spawnSync e ''git'' [''rev-parse'', ''--is-inside-work-tree''])
       (\<lambda>result. ret (status result = Some 0))"

definition getCurrentBranch :: "env \<Rightarrow> string option prog" where
  "getCurrentBranch e =
     try_catch (bind (run e ''git branch --show-current'' False) (\<lambda>b. ret (Some b)))
       (\<lambda>_. ret None)"

datatype staged = Staged (filename: "string option") (fstatus: "string option") (statusText: string)

definition statusText_of :: "string option \<Rightarrow> string" where
  "statusText_of s =
     (if s = Some ''M'' then ''modified''
      else if s = Some ''A'' then ''new file''
      else if s = Some ''D'' then ''deleted''
      else if s = Some ''R'' then ''renamed''
      else ''changed'')"

definition staged_of_line :: "string \<Rightarrow> staged" where
  "staged_of_line line =
     (let fs = split (CHR 0x09) line in Staged (elem fs 1) (elem fs 0) (statusText_of (elem fs 0)))"

definition getStagedFiles :: "env \<Rightarrow> staged list prog" where
  "getStagedFiles e =
     try_catch
       (bind (run e ''git diff --cached --name-status'' False) (\<lambda>output.
          if output = [] then ret [] else ret (map staged_of_line (lines output))))
       (\<lambda>_. ret [])"

datatype commit =
  Commit (fullHash: "string option") (shortHash: "string option") (message: "string option")
    (time: "string option") (author: "string option")

definition commit_of_line :: "string \<Rightarrow> commit" where
  "commit_of_line line =
     (let fs = split (CHR ''|'') line
      in Commit (elem fs 0) (elem fs 1) (elem fs 2) (elem fs 3) (elem fs 4))"

definition getCommits :: "env \<Rightarrow> int option \<Rightarrow> commit list prog" where
  "getCommits e count =
     try_catch
       (bind (run e (''git log -'' @ num_str count @ '' --pretty=format:\"%H|%h|%s|%ar|%an\"'') False)
          (\<lambda>output. if output = [] then ret [] else ret (map commit_of_line (lines output))))
       (\<lambda>_. ret [])"

definition isWorkingTreeClean :: "env \<Rightarrow> bool prog" where
  "isWorkingTreeClean e =
     try_catch (bind (run e ''git status --porcelain'' False) (\<lambda>st. ret (st = [])))
       (\<lambda>_. ret False)"

datatype remote_info =
  RemoteInfo (local: string) (remote: string) (remoteBranch: string) (fullRemote: string)

definition getRemoteBranch :: "env \<Rightarrow> remote_info option prog" where
  "getRemoteBranch e =
     try_catch
       (bind (getCurrentBranch e) (\<lambda>branch.
          case branch of
            None \<Rightarrow> ret None
          | Some b \<Rightarrow>
              if b = [] then ret None
              else
                bind (run e (''git config branch.'' @ b @ ''.remote'') True) (\<lambda>r1.
                bind (run e (''git config branch.'' @ b @ ''.merge'') True) (\<lambda>r2.
                  let remote = or_else r1 ''origin'';
                      remoteBranch = or_else (remove_first ''refs/heads/'' r2) b
                  in ret (Some (RemoteInfo b remote remoteBranch (remote @ ''/'' @ remoteBranch)))))))
       (\<lambda>_. ret None)"

definition getCommitsInRange :: "env \<Rightarrow> string \<Rightarrow> string list prog" where
  "getCommitsInRange e rng =
     try_catch
       (bind (run e (''git log '' @ rng @ '' --pretty=format:\"%h %s\"'') False) (\<lambda>output.
          if output = [] then ret [] else ret (lines output)))
       (\<lambda>_. ret [])"

datatype diff =
  Diff (ahead: int) (behind: int) (aheadCommits: "string list") (behindCommits: "string list")

definition getRemoteDiff :: "env \<Rightarrow> diff option prog" where
  "getRemoteDiff e =
     try_catch
       (bind (getRemoteBranch e) (\<lambda>info.
          case info of
            None \<Rightarrow> ret None
          | Some i \<Rightarrow>
              seq (log ''Fetching remote information...'' [])
             (bind (spawnSync e ''git'' [''fetch'', remote i]) (\<lambda>_.
              bind (run e (''git rev-list --count '' @ fullRemote i @ ''..HEAD'') True) (\<lambda>ahead.
              bind (run e (''git rev-list --count HEAD..'' @ fullRemote i) True) (\<lambda>behind.
              bind (if ahead \<noteq> [] then getCommitsInRange e (fullRemote i @ ''..HEAD'') else ret [])
                (\<lambda>aheadCommits.
              bind (if behind \<noteq> [] then getCommitsInRange e (''HEAD..'' @ fullRemote i) else ret [])
                (\<lambda>behindCommits.
                ret (Some (Diff (num_or_0 (parseInt ahead)) (num_or_0 (parseInt behind))
                             aheadCommits behindCommits))))))))))
       (\<lambda>_. ret None)"

subsection \<open>Rewind commits\<close>

definition resetCommits :: "env \<Rightarrow> unit prog" where
  "resetCommits e =
     seq (log ''Rewind commits'' [])
    (bind (select ''How many commits to rewind?'' [] [''1'', ''2'', ''3'', ''5'', ''custom'']) (\<lambda>choice.
     bind (if choice = ''custom''
           then input_prompt ''Number of commits to rewind:'' []
                  (\<lambda>value. case parseInt value of None \<Rightarrow> False | Some num \<Rightarrow> 0 < num \<and> num < 100)
           else ret choice) (\<lambda>count.
     let numCount = parseInt count in
     seq (log ''The following commits will be rewound:'' [num_str numCount])
    (bind (getCommits e numCount) (\<lambda>commits.
     seq (for_each
            (\<lambda>(index, c). log ''commit'' [dec (index + 1), str (shortHash c), str (message c), str (time c)])
            (enumerate 0 commits))
    (seq (log [] [])
    (bind (select ''Rewind mode:'' [] [''soft'', ''mixed'', ''hard'']) (\<lambda>mode.
     seq (if mode = ''hard''
          then seq (emits [Log ''Warning: this permanently deletes:'' [],
                           Log ''- all changes of the last commits'' [num_str numCount],
                           Log ''- uncommitted changes of the working tree'' [],
                           Log ''This cannot be undone!'' []])
                (bind (input_prompt ''Type yes to confirm the hard reset:'' [] (\<lambda>value. value = ''yes''))
                   (\<lambda>_. ret ()))
          else ret ())
    (let targetCommit = ''HEAD~'' @ num_str numCount in
     bind (spawnSync e ''git'' [''reset'', ''--'' @ mode, targetCommit]) (\<lambda>result.
       if status result = Some 0
       then seq (log ''Rewound commits'' [num_str numCount, mode])
           (bind (run e ''git log -1 --pretty=format:\"%h - %s\"'' False) (\<lambda>currentHead.
              emits [Log ''Current state:'' [], Log ''HEAD is now at'' [currentHead],
                     Log ''Hint: git reflog shows the history of operations'' []]))
       else seq (err ''Rewind failed'' []) (exit 1)))))))))))"

subsection \<open>Unstage files\<close>

text \<open>The expansion of the synthetic entry (lines 273 to 278) and the body of the loop
  (lines 288 to 293) of \<^verbatim>\<open>unstageFiles\<close>.\<close>

definition unstage_selection :: "staged list \<Rightarrow> string option list \<Rightarrow> string option list" where
  "unstage_selection staged picked =
     (if Some ''__all__'' \<in> set picked then map filename staged
      else filter (\<lambda>s. s \<noteq> Some ''__all__'') picked)"

definition unstage_one :: "env \<Rightarrow> string option \<Rightarrow> unit prog" where
  "unstage_one e f =
     bind (spawnSync e ''git'' [''reset'', ''HEAD'', str f]) (\<lambda>result.
       if status result = Some 0 then log ''unstaged'' [str f]
       else log ''failed to unstage'' [str f])"

definition unstageFiles :: "env \<Rightarrow> unit prog" where
  "unstageFiles e =
     seq (log ''Unstage files'' [])
    (bind (getStagedFiles e) (\<lambda>staged.
     if length staged = 0 then log ''No staged files'' []
     else
       seq (log ''Staged files:'' [])
      (bind (multiselect_from ''Select the files to unstage:'' [] (\<lambda>n. n)
               (Some ''__all__'' # map filename staged))
         (\<lambda>picked.
       let selected = unstage_selection staged picked in
       if length selected = 0 then log ''No file selected'' []
       else
         seq (log [] [])
        (seq (for_each (unstage_one e) selected)
             (emits [Log ''Unstaged files'' [dec (length selected)],
                     Log ''Hint: the changes stay in the working tree'' []]))))))"

subsection \<open>Sync to remote\<close>

definition resetToRemote :: "env \<Rightarrow> unit prog" where
  "resetToRemote e =
     seq (log ''Reset to the remote branch'' [])
    (bind (getRemoteBranch e) (\<lambda>info.
     case info of
       None \<Rightarrow> err ''Cannot get the remote branch'' []
     | Some i \<Rightarrow>
         seq (emits [Log ''Current branch:'' [local i], Log ''Remote branch:'' [fullRemote i]])
        (bind (getRemoteDiff e) (\<lambda>diff.
         case diff of
           None \<Rightarrow> err ''Cannot get the difference to the remote'' []
         | Some d \<Rightarrow>
             if ahead d = 0 \<and> behind d = 0
             then log ''The local branch is in sync with the remote branch'' []
             else
               seq (log ''Difference between local and remote:'' [])
              (seq (if 0 < ahead d
                    then seq (log ''Local is ahead by commits:'' [num_str (Some (ahead d))])
                        (seq (for_each (\<lambda>c. log ''-'' [c]) (aheadCommits d)) (log [] []))
                    else ret ())
              (seq (if 0 < behind d
                    then seq (log ''Remote is ahead by commits:'' [num_str (Some (behind d))])
                        (seq (for_each (\<lambda>c. log ''-'' [c]) (behindCommits d)) (log [] []))
                    else ret ())
              (seq (log ''This resets the local branch to the state of the remote branch'' [])
              (bind (select ''Reset mode:'' [] [''mixed'', ''soft'', ''hard'']) (\<lambda>mode.
               bind (confirm ''Reset the local branch to the remote branch?'' [fullRemote i])
                 (\<lambda>confirmed.
                 if \<not> confirmed then log ''Operation cancelled'' []
                 else
                   seq (log ''Running...'' [])
                  (bind (spawnSync e ''git'' [''reset'', ''--'' @ mode, fullRemote i]) (\<lambda>result.
                     if status result = Some 0 then log ''Reset to the remote branch done'' [fullRemote i]
                     else seq (err ''Reset failed'' []) (exit 1)))))))))))))"

subsection \<open>Reset to a commit\<close>

definition resetToCommit :: "env \<Rightarrow> unit prog" where
  "resetToCommit e =
     seq (emits [Log ''Reset to a commit'' [], Log ''The last 10 commits:'' []])
    (bind (getCommits e (Some 10)) (\<lambda>commits.
     seq (for_each
            (\<lambda>(index, c). log ''commit'' [dec (index + 1), str (shortHash c), str (message c), str (time c)])
            (enumerate 0 commits))
    (seq (log [] [])
    (bind (select ''Choose:'' [] [''list'', ''manual'']) (\<lambda>method.
     let reset_to = (\<lambda>commitInfo.
           case commitInfo of
             None \<Rightarrow> throw TypeError
           | Some ci \<Rightarrow>
               seq (emits [Log ''Target commit:'' [], Log ''Hash:'' [str (shortHash ci)],
                           Log ''Author:'' [str (author ci)], Log ''Time:'' [str (time ci)],
                           Log ''Message:'' [str (message ci)]])
              (bind (select ''Reset mode:'' [] [''mixed'', ''soft'', ''hard'']) (\<lambda>mode.
               seq (log ''Will reset to the commit:'' [str (shortHash ci)])
              (bind (confirm ''Confirm?'' []) (\<lambda>confirmed.
                 if \<not> confirmed then log ''Operation cancelled'' []
                 else
                   seq (log ''Running...'' [])
                  (bind (spawnSync e ''git'' [''reset'', ''--'' @ mode, str (shortHash ci)]) (\<lambda>result.
                     if status result = Some 0 then log ''Reset to the commit done'' []
                     else seq (err ''Reset failed'' []) (exit 1))))))))
     in
     if method = ''list''
     then bind (select_from ''Select the commit to reset to:'' [] (\<lambda>n. n)
                  (map (\<lambda>c. (shortHash c, False)) commits)) (\<lambda>targetCommit.
            reset_to (find (\<lambda>c. shortHash c = targetCommit) commits))
     else bind (input_prompt ''Commit hash (full or the first 7 characters):'' []
                  (\<lambda>value. 6 \<le> length value)) (\<lambda>targetCommit.
          bind (try_catch
                  (bind (run e (''git log -1 '' @ targetCommit @ '' --pretty=format:\"%H|%h|%s|%ar|%an\"'') False)
                     (\<lambda>info. ret (Some (commit_of_line info))))
                  (\<lambda>_. seq (err ''Invalid commit hash'' []) (ret None))) (\<lambda>found.
          case found of None \<Rightarrow> ret () | Some ci \<Rightarrow> reset_to (Some ci))))))))"

subsection \<open>Main menu\<close>

definition res_main :: "env \<Rightarrow> unit prog" where
  "res_main e =
     bind (isGitRepo e) (\<lambda>repo.
     if \<not> repo then seq (err ''Not a git repository, enter a repository first.'' []) (exit 1)
     else
       seq (log ''Git Reset tool'' [])
      (try_catch
         (bind (select ''Choose an operation:'' []
                  [''resetCommits'', ''unstageFiles'', ''resetToRemote'', ''resetToCommit'', ''cancel''])
            (\<lambda>action.
              if action = ''resetCommits'' then resetCommits e
              else if action = ''unstageFiles'' then unstageFiles e
              else if action = ''resetToRemote'' then resetToRemote e
              else if action = ''resetToCommit'' then resetToCommit e
              else if action = ''cancel'' then log ''Cancelled'' []
              else ret ()))
         (\<lambda>x. if x = Cancelled then seq (log ''Operation cancelled (interrupt)'' []) (exit 0)
              else seq (err ''Operation failed:'' [exn_text x]) (exit 1))))"

section \<open>The stash tool (stash.js)\<close>

text \<open>
  \<^verbatim>\<open>run\<close>, \<^verbatim>\<open>isGitRepo\<close> and \<^verbatim>\<open>getCurrentBranch\<close> of stash.js are the
  functions of res.js, letter for letter: \<^const>\<open>run\<close>, \<^const>\<open>isGitRepo\<close>,
  \<^const>\<open>getCurrentBranch\<close>.
\<close>

datatype working_status = WorkingStatus (modified: nat) (staged_count: nat) (untracked: nat)

definition count_lines :: "string \<Rightarrow> nat" where
  "count_lines s = (if s = [] then 0 else length (filter_Boolean (lines s)))"

definition getWorkingStatus :: "env \<Rightarrow> working_status prog" where
  "getWorkingStatus e =
     try_catch
       (bind (run e ''git diff --name-only'' True) (\<lambda>modifiedFiles.
        bind (run e ''git diff --cached --name-only'' True) (\<lambda>stagedFiles.
        bind (run e ''git ls-files --others --exclude-standard'' True) (\<lambda>untrackedFiles.
          ret (WorkingStatus (count_lines modifiedFiles) (count_lines stagedFiles)
                 (count_lines untrackedFiles))))))
       (\<lambda>_. ret (WorkingStatus 0 0 0))"

datatype stash =
  Stash (stash_ref: "string option") (stash_message: "string option") (stash_time: "string option")

definition stash_of_line :: "string \<Rightarrow> stash" where
  "stash_of_line line = (let fs = split (CHR ''|'') line in Stash (elem fs 0) (elem fs 1) (elem fs 2))"

definition getStashList :: "env \<Rightarrow> stash list prog" where
  "getStashList e =
     try_catch
       (bind (run e ''git stash list --pretty=format:\"%gd|%s|%cr\"'' True) (\<lambda>output.
          if output = [] then ret [] else ret (map stash_of_line (lines output))))
       (\<lambda>_. ret [])"

definition hasChanges :: "env \<Rightarrow> bool prog" where
  "hasChanges e = bind (getWorkingStatus e) (\<lambda>st. ret (0 < modified st \<or> 0 < staged_count st))"

subsection \<open>Create a stash\<close>

definition stashChanges :: "env \<Rightarrow> unit prog" where
  "stashChanges e =
     seq (log ''Stash the current changes'' [])
    (bind (getWorkingStatus e) (\<lambda>st.
     if modified st = 0 \<and> staged_count st = 0 then log ''Nothing to stash in the working tree'' []
     else
       seq (log ''Working tree:'' [])
      (seq (if 0 < modified st then log ''modified files:'' [dec (modified st)] else ret ())
      (seq (if 0 < staged_count st then log ''staged files:'' [dec (staged_count st)] else ret ())
      (seq (if 0 < untracked st then log ''untracked files:'' [dec (untracked st)] else ret ())
      (seq (log [] [])
      (bind (select ''Stash option:'' []
               [''default'', ''message'', ''include-untracked'', ''keep-index'', ''all''])
         (\<lambda>option.
       bind (if option = ''message''
             then bind (input_prompt ''Message:'' [] (\<lambda>value. trim value \<noteq> []))
                    (\<lambda>message. ret [''stash'', ''push'', ''-m'', message])
             else if option = ''include-untracked'' then ret [''stash'', ''push'', ''-u'']
             else if option = ''keep-index'' then ret [''stash'', ''push'', ''--keep-index'']
             else if option = ''all'' then ret [''stash'', ''push'', ''-a'']
             else ret [''stash'', ''push'']) (\<lambda>args.
       seq (log ''Running...'' [])
      (bind (spawnSync e ''git'' args) (\<lambda>result.
         if status result = Some 0
         then seq (log ''Changes stashed'' [])
             (bind (getStashList e) (\<lambda>stashes.
                emits [Log ''Number of stashes:'' [dec (length stashes)],
                       Log ''Hint: manage your stashes with the stash command'' []]))
         else seq (err ''Stash failed'' []) (exit 1))))))))))))"

subsection \<open>Operations on one stash\<close>

definition popStash :: "env \<Rightarrow> string option \<Rightarrow> unit prog" where
  "popStash e stashRef =
     seq (log ''Restoring...'' [str stashRef])
    (bind (hasChanges e) (\<lambda>dirty.
     bind (if dirty
           then seq (log ''Warning: the working tree has uncommitted changes'' [])
               (confirm ''pop may conflict, continue?'' [])
           else ret True) (\<lambda>go.
     if \<not> go then log ''Operation cancelled'' []
     else
       bind (spawnSync e ''git'' [''stash'', ''pop'', str stashRef]) (\<lambda>result.
         if status result = Some 0
         then seq (log ''Restored'' [str stashRef])
             (bind (getStashList e) (\<lambda>stashes.
                log ''Remaining stashes:'' [dec (length stashes)]))
         else seq (err ''Restore failed, maybe a conflict'' [])
                  (log ''Hint: after resolving, drop the stash: git stash drop'' [str stashRef])))))"

definition applyStash :: "env \<Rightarrow> string option \<Rightarrow> unit prog" where
  "applyStash e stashRef =
     seq (log ''Applying...'' [str stashRef])
    (bind (hasChanges e) (\<lambda>dirty.
     bind (if dirty
           then seq (log ''Warning: the working tree has uncommitted changes'' [])
               (confirm ''apply may conflict, continue?'' [])
           else ret True) (\<lambda>go.
     if \<not> go then log ''Operation cancelled'' []
     else
       bind (spawnSync e ''git'' [''stash'', ''apply'', str stashRef]) (\<lambda>result.
         if status result = Some 0
         then emits [Log ''Applied'' [str stashRef],
                     Log ''Hint: the stash stays in the list'' []]
         else err ''Apply failed, maybe a conflict'' []))))"

definition dropStash :: "env \<Rightarrow> string option \<Rightarrow> unit prog" where
  "dropStash e stashRef =
     bind (run e (''git stash list | grep \"'' @ str stashRef @ ''\"'') False) (\<lambda>stashInfo.
     seq (emits [Log ''About to drop:'' [stashInfo], Log ''This cannot be undone!'' []])
    (bind (confirm ''Drop the stash?'' [str stashRef]) (\<lambda>confirmed.
     if \<not> confirmed then log ''Operation cancelled'' []
     else
       bind (spawnSync e ''git'' [''stash'', ''drop'', str stashRef]) (\<lambda>result.
         if status result = Some 0
         then seq (log ''Dropped'' [str stashRef])
             (bind (getStashList e) (\<lambda>stashes.
                log ''Remaining stashes:'' [dec (length stashes)]))
         else err ''Drop failed'' []))))"

text \<open>
  \<^verbatim>\<open>showStash\<close> and \<^verbatim>\<open>operateOnStash\<close> call each other. Both are written with the
  call back into \<^verbatim>\<open>operateOnStash\<close> as a parameter; the recursion is then closed
  over the length of the script, since every round takes two responses
  (\<open>operateOnStash_unfold\<close> below is the equation of the source).
\<close>

definition showStash_with :: "unit prog \<Rightarrow> env \<Rightarrow> string option \<Rightarrow> unit prog" where
  "showStash_with again e stashRef =
     seq (emits [Log ''Content of the stash:'' [str stashRef], Log ''===='' []])
    (bind (spawnSync e ''git'' [''stash'', ''show'', ''-p'', str stashRef]) (\<lambda>_.
     seq (emits [Log ''===='' [], Log [] []])
    (bind (confirm ''Another operation on this stash?'' []) (\<lambda>shouldContinue.
     if shouldContinue then again else ret ()))))"

definition operateOnStash_with :: "unit prog \<Rightarrow> env \<Rightarrow> string option \<Rightarrow> unit prog" where
  "operateOnStash_with again e stashRef =
     bind (run e (''git stash list | grep \"'' @ str stashRef @ ''\"'') False) (\<lambda>stashInfo.
     seq (log ''Selected stash:'' [stashInfo])
    (bind (select ''Operation on the stash:'' [str stashRef]
             [''pop'', ''apply'', ''show'', ''drop'', ''cancel'']) (\<lambda>action.
     if action = ''cancel'' then ret ()
     else if action = ''pop'' then popStash e stashRef
     else if action = ''apply'' then applyStash e stashRef
     else if action = ''show'' then showStash_with again e stashRef
     else if action = ''drop'' then dropStash e stashRef
     else ret ())))"

fun operateOnStash_rounds :: "nat \<Rightarrow> env \<Rightarrow> string option \<Rightarrow> unit prog" where
  "operateOnStash_rounds 0 e stashRef = operateOnStash_with (\<lambda>w. (Blocked, w)) e stashRef"
| "operateOnStash_rounds (Suc n) e stashRef =
     operateOnStash_with (operateOnStash_rounds n e stashRef) e stashRef"

definition operateOnStash :: "env \<Rightarrow> string option \<Rightarrow> unit prog" where
  "operateOnStash e stashRef w = operateOnStash_rounds (length (inputs w)) e stashRef w"

definition showStash :: "env \<Rightarrow> string option \<Rightarrow> unit prog" where
  "showStash e stashRef = showStash_with (operateOnStash e stashRef) e stashRef"

subsection \<open>Clear, manage, list\<close>

definition clearAllStashes :: "env \<Rightarrow> unit prog" where
  "clearAllStashes e =
     bind (getStashList e) (\<lambda>stashes.
     seq (emits [Log ''About to clear all stashes'' [dec (length stashes)],
                 Log ''This cannot be undone!'' [],
                 Log ''These stashes will be deleted:'' []])
    (seq (for_each
            (\<lambda>(index, s). log ''stash'' [dec (index + 1), str (stash_message s), str (stash_time s)])
            (enumerate 0 stashes))
    (seq (log [] [])
    (bind (input_prompt ''Type yes to clear all stashes:'' [dec (length stashes)]
             (\<lambda>value. value = ''yes'')) (\<lambda>_.
     bind (spawnSync e ''git'' [''stash'', ''clear'']) (\<lambda>result.
       if status result = Some 0 then log ''All stashes cleared'' []
       else err ''Clear failed'' []))))))"

definition manageStashes :: "env \<Rightarrow> unit prog" where
  "manageStashes e =
     seq (log ''Manage stashes'' [])
    (bind (getStashList e) (\<lambda>stashes.
     if length stashes = 0 then log ''There is no stash'' []
     else
       seq (log ''Stashes:'' [dec (length stashes)])
      (bind (select_from ''Select a stash:'' [] (\<lambda>n. n)
               (map (\<lambda>s. (stash_ref s, False)) stashes @
                [(Some ''__separator__'', True), (Some ''__clear__'', False),
                 (Some ''__cancel__'', False)])) (\<lambda>selected.
       if selected = Some ''__cancel__'' then ret ()
       else if selected = Some ''__clear__'' then clearAllStashes e
       else operateOnStash e selected))))"

definition viewStashList :: "env \<Rightarrow> unit prog" where
  "viewStashList e =
     seq (log ''Stash list'' [])
    (bind (getStashList e) (\<lambda>stashes.
     if length stashes = 0 then log ''There is no stash'' []
     else
       seq (emits [Log ''Stashes in total:'' [dec (length stashes)], Log ''----'' []])
      (seq (for_each
              (\<lambda>(index, s).
                 emits [Log ''stash entry'' [dec index, str (stash_ref s), str (stash_message s)],
                        Log ''time'' [str (stash_time s)], Log ''----'' []])
              (enumerate 0 stashes))
           (log [] []))))"

subsection \<open>Main menu\<close>

text \<open>The prompt of the main menu and the switch on its answer (lines 503 to 536 of
  \<^verbatim>\<open>main\<close>), for the choices that lines 479 to 495 computed.\<close>

definition stash_menu :: "env \<Rightarrow> string list \<Rightarrow> unit prog" where
  "stash_menu e choices =
     try_catch
       (bind (select ''Choose an operation:'' [] (choices @ [''cancel''])) (\<lambda>action.
          if action = ''stash'' then stashChanges e
          else if action = ''manage'' then manageStashes e
          else if action = ''list'' then viewStashList e
          else if action = ''cancel'' then log ''Exited'' []
          else ret ()))
       (\<lambda>x. if x = Cancelled then seq (log ''Operation cancelled (interrupt)'' []) (exit 0)
            else seq (err ''Operation failed:'' [exn_text x]) (exit 1))"

definition stash_main :: "env \<Rightarrow> unit prog" where
  "stash_main e =
     bind (isGitRepo e) (\<lambda>repo.
     if \<not> repo then seq (err ''Not a git repository, enter a repository first.'' []) (exit 1)
     else
       seq (log ''Git Stash manager'' [])
      (bind (getCurrentBranch e) (\<lambda>branch.
       bind (getWorkingStatus e) (\<lambda>st.
       bind (getStashList e) (\<lambda>stashes.
       seq (log ''Current state:'' [])
      (seq (if branch \<noteq> None \<and> branch \<noteq> Some [] then log ''branch:'' [str branch] else ret ())
      (seq (if 0 < modified st then log ''working tree, files modified:'' [dec (modified st)] else ret ())
      (seq (if 0 < staged_count st then log ''index, files staged:'' [dec (staged_count st)] else ret ())
      (seq (if 0 < untracked st then log ''untracked, files:'' [dec (untracked st)] else ret ())
      (seq (emits [Log ''Number of stashes:'' [dec (length stashes)], Log [] []])
      (bind (hasChanges e) (\<lambda>changes.
       let choices =
             (if changes then [''stash''] else []) @
             (if 0 < length stashes then [''manage'', ''list''] else [])
       in
       if length choices = 0
       then emits [Log ''The working tree is clean and there is no stash'' [],
                   Log ''Hint: use this command to stash uncommitted changes'' []]
       else stash_menu e choices))))))))))))"

section \<open>The branch-deletion tool (bd.js)\<close>

definition bd_run :: "env \<Rightarrow> string \<Rightarrow> string prog" where
  "bd_run e c = bind (execSync e c) (\<lambda>out. ret (trim out))"

definition bd_getCurrentBranch :: "env \<Rightarrow> string option prog" where
  "bd_getCurrentBranch e =
     try_catch (bind (bd_run e ''git rev-parse --abbrev-ref HEAD'') (\<lambda>b. ret (Some b)))
       (\<lambda>_. ret None)"

definition getLocalBranches :: "env \<Rightarrow> string list prog" where
  "getLocalBranches e =
     try_catch
       (bind (bd_run e ''git for-each-ref --format='%(refname:short)' refs/heads'') (\<lambda>out.
          ret (filter_Boolean (map trim (lines_crlf out)))))
       (\<lambda>_. ret [])"

definition getRemoteBranches :: "env \<Rightarrow> string list prog" where
  "getRemoteBranches e =
     try_catch
       (bind (bd_run e ''git for-each-ref --format='%(refname:short)' refs/remotes'') (\<lambda>out.
          ret (filter_Boolean (map trim (lines_crlf out)))))
       (\<lambda>_. ret [])"

text \<open>
  The three deleting loops push onto \<^verbatim>\<open>succ\<close> and \<^verbatim>\<open>fail\<close>; the model carries both
  lists. A failure is the name with the text of the error.
  (\<^verbatim>\<open>spawnSync\<close> does not throw in the model, so the \<^verbatim>\<open>catch\<close> around it is not entered.)
\<close>

fun deleteLocal_loop ::
  "env \<Rightarrow> string list \<Rightarrow> string list \<Rightarrow> (string \<times> string) list \<Rightarrow>
   (string list \<times> (string \<times> string) list) prog" where
  "deleteLocal_loop e [] succ fail = ret (succ, fail)"
| "deleteLocal_loop e (b # bs) succ fail =
     bind (spawnSync e ''git'' [''branch'', ''-d'', b]) (\<lambda>r.
       if status r = Some 0 then deleteLocal_loop e bs (succ @ [b]) fail
       else deleteLocal_loop e bs succ
              (fail @ [(b, or_else (stderr r) (or_else (stdout r) ''delete failed''))]))"

definition deleteLocalBranches :: "env \<Rightarrow> string list \<Rightarrow> (string list \<times> (string \<times> string) list) prog" where
  "deleteLocalBranches e branches = deleteLocal_loop e branches [] []"

fun forceDelete_loop ::
  "env \<Rightarrow> string list \<Rightarrow> string list \<Rightarrow> (string \<times> string) list \<Rightarrow>
   (string list \<times> (string \<times> string) list) prog" where
  "forceDelete_loop e [] succ fail = ret (succ, fail)"
| "forceDelete_loop e (b # bs) succ fail =
     bind (spawnSync e ''git'' [''branch'', ''-D'', b]) (\<lambda>r.
       if status r = Some 0 then forceDelete_loop e bs (succ @ [b]) fail
       else forceDelete_loop e bs succ
              (fail @ [(b, or_else (stderr r) (or_else (stdout r) ''force delete failed''))]))"

definition forceDeleteLocalBranches :: "env \<Rightarrow> string list \<Rightarrow> (string list \<times> (string \<times> string) list) prog" where
  "forceDeleteLocalBranches e branches = forceDelete_loop e branches [] []"

fun deleteRemote_loop ::
  "env \<Rightarrow> string list \<Rightarrow> string list \<Rightarrow> (string \<times> string) list \<Rightarrow>
   (string list \<times> (string \<times> string) list) prog" where
  "deleteRemote_loop e [] succ fail = ret (succ, fail)"
| "deleteRemote_loop e (rf # rfs) succ fail =
     (case index_of (CHR ''/'') rf of
        None \<Rightarrow> deleteRemote_loop e rfs succ (fail @ [(rf, ''cannot parse remote/branch'')])
      | Some idx \<Rightarrow>
          bind (spawnSync e ''git'' [''push'', take idx rf, ''--delete'', drop (idx + 1) rf]) (\<lambda>r.
            if status r = Some 0 then deleteRemote_loop e rfs (succ @ [rf]) fail
            else deleteRemote_loop e rfs succ
                   (fail @ [(rf, or_else (stderr r) (or_else (stdout r) ''remote delete failed''))])))"

definition deleteRemoteBranches :: "env \<Rightarrow> string list \<Rightarrow> (string list \<times> (string \<times> string) list) prog" where
  "deleteRemoteBranches e remoteRefs = deleteRemote_loop e remoteRefs [] []"

text \<open>\<^verbatim>\<open>[...new Set(xs)]\<close>: the first occurrence of each element, in order.\<close>

definition uniq :: "'a list \<Rightarrow> 'a list" where
  "uniq xs = rev (remdups (rev xs))"

text \<open>\<^verbatim>\<open>main\<close>, from the multi-select on (lines 122 to 292), for the current branch
  and the candidates that lines 115 to 120 computed.\<close>

definition bd_delete_flow :: "env \<Rightarrow> string option \<Rightarrow> string list \<Rightarrow> unit prog" where
  "bd_delete_flow e current localBranches =
     bind (try_catch
             (multiselect ''Select the local branches to delete:'' [str_null current]
                (''__all__'' # localBranches))
             (\<lambda>x. if x = Cancelled then seq (log ''Cancelled.'' []) (exit 1)
                  else seq (err ''Operation failed:'' [exn_text x]) (exit 1))) (\<lambda>picked.
     let selected =
           (if ''__all__'' \<in> set picked then localBranches
            else filter (\<lambda>s. s \<noteq> ''__all__'') picked)
     in
     if length selected = 0 then seq (log ''No branch selected, cancelled.'' []) (exit 0)
     else
     seq (log ''About to delete these local branches:'' [])
    (seq (for_each (\<lambda>b. log ''-'' [b]) selected)
    (bind (confirm ''Delete these local branches? (safe delete: git branch -d)'' []) (\<lambda>c1.
     if \<not> c1 then seq (log ''Deletion cancelled.'' []) (exit 0)
     else
     bind (deleteLocalBranches e selected) (\<lambda>(succ, fail).
     seq (if length succ \<noteq> 0
          then seq (log ''Deleted (local):'' []) (for_each (\<lambda>b. log ''ok'' [b]) succ)
          else ret ())
    (bind (if length fail \<noteq> 0
           then
             seq (log ''Cannot delete safely (maybe unmerged):'' [])
            (seq (for_each (\<lambda>f. log ''failed'' [fst f, trim (snd f)]) fail)
            (bind (confirm ''Force delete (git branch -D) the branches that failed?'' []) (\<lambda>force.
             if force
             then
               let failedNames = map fst fail in
               bind (forceDeleteLocalBranches e failedNames) (\<lambda>(succ2, fail2).
               seq (if length succ2 \<noteq> 0
                    then seq (log ''Force deleted:'' []) (for_each (\<lambda>b. log ''ok'' [b]) succ2)
                    else ret ())
              (seq (if length fail2 \<noteq> 0
                    then seq (log ''Force delete failed:'' [])
                             (for_each (\<lambda>f. log ''failed'' [fst f, trim (snd f)]) fail2)
                    else ret ())
                   (ret (succ @ succ2))))
             else ret succ)))
           else ret succ) (\<lambda>deletedLocal.
     if length deletedLocal = 0
     then seq (log ''No local branch was deleted, remote deletion skipped.'' []) (exit 0)
     else
     bind (confirm ''Also delete the remote branches of the deleted local branches?''
             [dec (length deletedLocal)]) (\<lambda>askRemote.
     if \<not> askRemote then seq (log ''Local deletion done, no remote deletion.'' []) (exit 0)
     else
     bind (getRemoteBranches e) (\<lambda>remoteRefs.
     let candidates = filter (\<lambda>r. list_ex (\<lambda>b. ends_with r (''/'' @ b)) deletedLocal) remoteRefs;
         uniqCandidates = uniq candidates
     in
     if length uniqCandidates = 0 then seq (log ''No remote branch found to delete.'' []) (exit 0)
     else
     bind (try_catch
             (multiselect ''Select the remote branches to delete:'' [] (''__all__'' # uniqCandidates))
             (\<lambda>x. if x = Cancelled then seq (log ''Remote deletion cancelled.'' []) (exit 1)
                  else seq (err ''Operation failed:'' [exn_text x]) (exit 1))) (\<lambda>remotePicked.
     let remoteSelected =
           (if ''__all__'' \<in> set remotePicked then uniqCandidates
            else filter (\<lambda>s. s \<noteq> ''__all__'') remotePicked)
     in
     if length remoteSelected = 0 then seq (log ''No remote branch selected, done.'' []) (exit 0)
     else
     seq (log ''Deleting remote branches:'' [])
    (bind (deleteRemoteBranches e remoteSelected) (\<lambda>(remoteSucc, remoteFail).
     seq (if length remoteSucc \<noteq> 0
          then seq (log ''Remote deleted:'' []) (for_each (\<lambda>r. log ''ok'' [r]) remoteSucc)
          else ret ())
    (seq (if length remoteFail \<noteq> 0
          then seq (log ''Remote delete failed:'' [])
                   (for_each (\<lambda>f. log ''failed'' [fst f, trim (snd f)]) remoteFail)
          else ret ())
    (seq (log ''Done.'' []) (exit 0)))))))))))))))"

definition bd_main :: "env \<Rightarrow> unit prog" where
  "bd_main e =
     seq (try_catch (seq (bd_run e ''git rev-parse --is-inside-work-tree'') (ret ()))
            (\<lambda>_. seq (err ''Not a git repository, enter a repository first.'' []) (exit 1)))
    (bind (bd_getCurrentBranch e) (\<lambda>current.
     bind (getLocalBranches e) (\<lambda>branches.
     let localBranches = filter (\<lambda>b. Some b \<noteq> current) branches in
     if length localBranches = 0
     then seq (log ''No local branch to delete (besides the current one).'' []) (exit 0)
     else bd_delete_flow e current localBranches)))"

text \<open>\<^verbatim>\<open>main().catch(e => ...)\<close>\<close>

definition bd_tool :: "env \<Rightarrow> unit prog" where
  "bd_tool e = try_catch (bd_main e) (\<lambda>x. seq (err ''Fatal error:'' [exn_text x]) (exit 1))"

section \<open>The thin wrappers\<close>






subsection \<open>ck.js: switch or create a branch\<close>

definition branch_of_line :: "string \<Rightarrow> string \<times> bool" where
  "branch_of_line l =
     (dropWhile (\<lambda>c. c = CHR ''*'' \<or> js_space c) l, starts_with (trim l) ''*'')"

definition ck_getBranches :: "env \<Rightarrow> (string \<times> bool) list option prog" where
  "ck_getBranches e =
     try_catch
       (bind (execSync e ''git branch --no-color'') (\<lambda>out.
          ret (Some (map branch_of_line (filter_Boolean (lines_crlf out))))))
       (\<lambda>_. ret None)"

definition ck_getCurrentBranch :: "env \<Rightarrow> string option prog" where
  "ck_getCurrentBranch e =
     try_catch (bind (execSync e ''git branch --show-current'') (\<lambda>out. ret (Some (trim out))))
       (\<lambda>_. ret None)"

definition runGitCommand :: "env \<Rightarrow> string list \<Rightarrow> bool prog" where
  "runGitCommand e args = bind (spawnSync e ''git'' args) (\<lambda>result. ret (status result = Some 0))"

definition switchBranch :: "env \<Rightarrow> string \<Rightarrow> bool prog" where
  "switchBranch e branch =
     bind (runGitCommand e [''switch'', branch]) (\<lambda>ok.
     if \<not> ok then runGitCommand e [''checkout'', branch] else ret True)"

definition interactiveSwitch :: "env \<Rightarrow> unit prog" where
  "interactiveSwitch e =
     bind (ck_getBranches e) (\<lambda>branches.
     case branches of
       None \<Rightarrow> seq (err ''Not a git repository, enter a repository first.'' []) (exit 1)
     | Some bs \<Rightarrow>
         bind (select ''Select the branch to switch to:'' [] (map fst bs)) (\<lambda>branch.
         let current = map_option fst (find snd bs) in
         if Some branch = current then log ''Already on branch:'' [branch]
         else
           seq (log ''Switching to branch:'' [branch])
          (bind (switchBranch e branch) (\<lambda>ok.
             if ok then log ''Switched to branch:'' [branch]
             else err ''Switch failed, check for uncommitted changes.'' []))))"

definition createAndSwitch :: "env \<Rightarrow> string \<Rightarrow> unit prog" where
  "createAndSwitch e newBranch =
     bind (ck_getCurrentBranch e) (\<lambda>currentBranch.
     let from_branch = (currentBranch \<noteq> None \<and> currentBranch \<noteq> Some []) in
     seq (if from_branch then log ''Creating from branch and switching:'' [str currentBranch, newBranch]
          else log ''Creating and switching to the new branch:'' [newBranch])
    (bind (runGitCommand e [''checkout'', ''-b'', newBranch]) (\<lambda>ok.
     if ok
     then (if from_branch then log ''Created from branch and switched:'' [str currentBranch, newBranch]
           else log ''New branch created and switched:'' [newBranch])
     else err ''Creating the branch failed, maybe it exists or there are uncommitted changes.'' [])))"

definition ck_main :: "env \<Rightarrow> unit prog" where
  "ck_main e =
     (if 0 < length (argv e) then createAndSwitch e (hd (argv e)) else interactiveSwitch e)"

subsection \<open>gcb.js: copy a branch name\<close>

definition gcb_getBranches :: "env \<Rightarrow> (string \<times> bool) list option prog" where
  "gcb_getBranches e =
     try_catch
       (bind (execSync e ''git branch --no-color'') (\<lambda>out.
          let ls = filter_Boolean (map drop_cr (lines out)) in
          if length ls = 0 then ret None else ret (Some (map branch_of_line ls))))
       (\<lambda>_. ret None)"

definition copyToClipboardSync :: "env \<Rightarrow> string \<Rightarrow> bool prog" where
  "copyToClipboardSync e text_in =
     try_catch
       (if platform e = ''darwin'' then seq (call e (SpawnInput ''pbcopy'' [] text_in)) (ret True)
        else if platform e = ''win32'' then seq (call e (SpawnInput ''clip'' [] text_in)) (ret True)
        else
          bind (call e (SpawnInput ''xclip'' [''-selection'', ''clipboard''] text_in)) (\<lambda>tryXclip.
          if status tryXclip = Some 0 then ret True
          else
            bind (call e (SpawnInput ''xsel'' [''--clipboard'', ''--input''] text_in)) (\<lambda>tryXsel.
            if status tryXsel = Some 0 then ret True else ret False)))
       (\<lambda>_. ret False)"

definition gcb_main :: "env \<Rightarrow> unit prog" where
  "gcb_main e =
     bind (gcb_getBranches e) (\<lambda>branches.
     case branches of
       None \<Rightarrow>
         seq (err ''Error: not a git repository, or the git command failed. Run this in a git repository.'' [])
             (exit 1)
     | Some bs \<Rightarrow>
         try_catch
           (bind (select ''Select the local branch to copy:'' [] (map fst bs)) (\<lambda>answer.
            bind (copyToClipboardSync e answer) (\<lambda>ok.
              if ok then log ''Copied the branch name:'' [answer]
              else log ''Cannot write to the clipboard. The branch name is:'' [answer])))
           (\<lambda>x. if x = Cancelled then seq (log ''Cancelled.'' []) (exit 1)
                else seq (err ''Operation cancelled or failed:'' [exn_text x]) (exit 1)))"

section \<open>Observations on a trace\<close>

fun commands :: "event list \<Rightarrow> cmd list" where
  "commands [] = []"
| "commands (Ran c # evs) = c # commands evs"
| "commands (_ # evs) = commands evs"

fun prompts :: "event list \<Rightarrow> event list" where
  "prompts [] = []"
| "prompts (Asked k v ns # evs) = Asked k v ns # prompts evs"
| "prompts (_ # evs) = prompts evs"

text \<open>
  The commands that change the repository or its working tree. The queries of the Git
  Inspector are not among them, and neither is \<^verbatim>\<open>git fetch\<close>, which the
  specification counts among the queries (it moves remote-tracking references only).
\<close>

definition mutating_args :: "string list \<Rightarrow> bool" where
  "mutating_args args =
     (case args of
        [] \<Rightarrow> False
      | sub # rest \<Rightarrow>
          sub \<in> set [''reset'', ''push'', ''pull'', ''checkout'', ''switch'']
          \<or> (sub = ''stash'' \<and>
              (case rest of
                 [] \<Rightarrow> True
               | op # _ \<Rightarrow> op \<in> set [''push'', ''pop'', ''apply'', ''drop'', ''clear'', ''save'']))
          \<or> (sub = ''branch'' \<and> (''-d'' \<in> set rest \<or> ''-D'' \<in> set rest)))"

definition mutating :: "cmd \<Rightarrow> bool" where
  "mutating c =
     (case c of
        Spawn f args \<Rightarrow> f = ''git'' \<and> mutating_args args
      | SpawnInput f args i \<Rightarrow> f = ''git'' \<and> mutating_args args
      | Exec s \<Rightarrow>
          list_ex (starts_with s)
            [''git reset'', ''git push'', ''git pull'', ''git checkout'', ''git switch'',
             ''git stash push'', ''git stash pop'', ''git stash apply'', ''git stash drop'',
             ''git stash clear'', ''git stash save'', ''git branch -d'', ''git branch -D''])"

section \<open>Reasoning about runs\<close>

text \<open>
  Every program only adds to the trace. \<open>appends P m\<close>: whatever the world, the events
  that \<open>m\<close> adds satisfy \<open>P\<close>. \<open>only ok m\<close>: each of them satisfies \<open>ok\<close>.
  \<open>yields m Q\<close>: what \<open>m\<close> returns satisfies \<open>Q\<close>. \<open>fresh m w\<close> are the events a run
  of \<open>m\<close> from \<open>w\<close> adds.
\<close>

definition appends :: "(event list \<Rightarrow> bool) \<Rightarrow> 'a prog \<Rightarrow> bool" where
  "appends P m = (\<forall>w. \<exists>evs. trace (snd (m w)) = trace w @ evs \<and> P evs)"

definition only :: "(event \<Rightarrow> bool) \<Rightarrow> 'a prog \<Rightarrow> bool" where
  "only ok m = appends (list_all ok) m"

definition yields :: "'a prog \<Rightarrow> ('a \<Rightarrow> bool) \<Rightarrow> bool" where
  "yields m Q = (\<forall>w x w'. m w = (Ret x, w') \<longrightarrow> Q x)"

definition fresh :: "'a prog \<Rightarrow> world \<Rightarrow> event list" where
  "fresh m w = drop (length (trace w)) (trace (snd (m w)))"

text \<open>
  The queries of the Git Inspector read the shell and nothing else: what they return
  depends on the clock alone. \<open>result_at m k\<close> is the outcome of \<open>m\<close> run at clock \<open>k\<close>.
\<close>

definition result_at :: "'a prog \<Rightarrow> nat \<Rightarrow> 'a outcome" where
  "result_at m k = fst (m \<lparr>inputs = [], clock = k, trace = []\<rparr>)"

text \<open>
  \<open>clock_after m k\<close> and \<open>events_at m k\<close> are the clock and the trace that a run of
  \<open>m\<close> at clock \<open>k\<close> leaves. \<open>reads m\<close>: a run of \<open>m\<close> takes no response of the
  operator, and its outcome, the commands it runs and the lines it writes depend on
  the clock alone.
\<close>

definition clock_after :: "'a prog \<Rightarrow> nat \<Rightarrow> nat" where
  "clock_after m k = clock (snd (m \<lparr>inputs = [], clock = k, trace = []\<rparr>))"

definition events_at :: "'a prog \<Rightarrow> nat \<Rightarrow> event list" where
  "events_at m k = trace (snd (m \<lparr>inputs = [], clock = k, trace = []\<rparr>))"

definition reads :: "'a prog \<Rightarrow> bool" where
  "reads m =
     (\<forall>w. m w = (result_at m (clock w),
                 w\<lparr>clock := clock_after m (clock w), trace := trace w @ events_at m (clock w)\<rparr>))"

text \<open>\<open>harmless ev\<close>: the event is no command that changes the repository;
  \<open>quiet ev\<close>: it is no prompt either.\<close>

definition harmless :: "event \<Rightarrow> bool" where
  "harmless ev = (case ev of Ran c \<Rightarrow> \<not> mutating c | _ \<Rightarrow> True)"

definition quiet :: "event \<Rightarrow> bool" where
  "quiet ev = (case ev of Ran c \<Rightarrow> \<not> mutating c | Asked _ _ _ \<Rightarrow> False | Got _ \<Rightarrow> False | _ \<Rightarrow> True)"

text \<open>
  \<open>on_interrupt S L m\<close>: when the operator interrupts a prompt of \<open>m\<close>, the run of
  \<open>m\<close> ends in one of the outcomes \<open>S\<close> (the value of a return forgotten) and the last
  event of the run is one of \<open>L\<close>.
\<close>

fun void :: "'a outcome \<Rightarrow> unit outcome" where
  "void (Ret x) = Ret ()"
| "void (Throw x) = Throw x"
| "void (Exit n) = Exit n"
| "void Blocked = Blocked"

definition on_interrupt :: "unit outcome set \<Rightarrow> event set \<Rightarrow> 'a prog \<Rightarrow> bool" where
  "on_interrupt S L m =
     (\<forall>w. \<exists>evs. trace (snd (m w)) = trace w @ evs \<and>
                 (Got Interrupt \<in> set evs \<longrightarrow> void (fst (m w)) \<in> S \<and> last evs \<in> L))"

text \<open>\<open>calm m\<close>: no prompt of \<open>m\<close> is interrupted (\<open>m\<close> has no prompt, as a rule).\<close>

abbreviation calm :: "'a prog \<Rightarrow> bool" where
  "calm \<equiv> only (\<lambda>ev. ev \<noteq> Got Interrupt)"

text \<open>What the loop of \<^const>\<open>unstageFiles\<close> is to leave in the trace, for the files it is
  given and the clock it starts at: the command of each file, then the line on its own
  success or failure.\<close>

fun unstage_report :: "env \<Rightarrow> nat \<Rightarrow> string option list \<Rightarrow> event list" where
  "unstage_report e k [] = []"
| "unstage_report e k (f # fs) =
     Ran (Spawn ''git'' [''reset'', ''HEAD'', str f]) #
     (if status (shell e k (Spawn ''git'' [''reset'', ''HEAD'', str f])) = Some 0
      then Log ''unstaged'' [str f] else Log ''failed to unstage'' [str f]) #
     unstage_report e (Suc k) fs"

text \<open>\<open>deletes b ev\<close>: the event is a command that deletes the local branch \<open>b\<close>, safely
  or by force.\<close>

definition deletes :: "string \<Rightarrow> event \<Rightarrow> bool" where
  "deletes b ev =
     (ev = Ran (Spawn ''git'' [''branch'', ''-d'', b]) \<or> ev = Ran (Spawn ''git'' [''branch'', ''-D'', b]))"

text \<open>\<open>spares c m\<close>: no command of \<open>m\<close> deletes the branch \<open>c\<close>.\<close>

abbreviation spares :: "string \<Rightarrow> 'a prog \<Rightarrow> bool" where
  "spares c \<equiv> only (\<lambda>ev. \<not> deletes c ev)"

abbreviation bd_last :: "event set" where
  "bd_last \<equiv> {Got Interrupt, Log ''Cancelled.'' [], Log ''Remote deletion cancelled.'' []}"

section \<open>Two environments for the examples\<close>

text \<open>
  A repository on branch \<open>main\<close> with the local branches \<open>main\<close>, \<open>dev\<close> and \<open>old\<close>
  (\<open>old\<close> is not merged: its safe deletion fails), in sync with its remote, two staged files, one modified file
  and two stashes, of which one is left from the fourteenth command on. Every other command
  succeeds and prints nothing. And a directory that is no repository, where every
  command fails.
\<close>

definition demo_shell :: "nat \<Rightarrow> cmd \<Rightarrow> proc" where
  "demo_shell k c =
     (if c = Exec ''git rev-parse --abbrev-ref HEAD'' \<or> c = Exec ''git branch --show-current''
      then Proc (Some 0) (''main'' @ [CHR 0x0A]) []
      else if c = Exec ''git for-each-ref --format='%(refname:short)' refs/heads''
      then Proc (Some 0) (''main'' @ [CHR 0x0A] @ ''dev'' @ [CHR 0x0A] @ ''old'' @ [CHR 0x0A]) []
      else if c = Exec ''git branch --no-color''
      then Proc (Some 0) (''  dev'' @ [CHR 0x0A] @ ''* main'' @ [CHR 0x0A] @ ''  old'' @ [CHR 0x0A]) []
      else if c = Spawn ''git'' [''branch'', ''-d'', ''old'']
      then Proc (Some 1) [] ''error: the branch is not fully merged''
      else if c = Exec ''git rev-list --count origin/main..HEAD''
              \<or> c = Exec ''git rev-list --count HEAD..origin/main''
      then Proc (Some 0) (''0'' @ [CHR 0x0A]) []
      else if c = Exec ''git diff --cached --name-status''
      then Proc (Some 0) (''M'' @ [CHR 0x09] @ ''a.txt'' @ [CHR 0x0A] @ ''A'' @ [CHR 0x09] @ ''b.txt'') []
      else if c = Exec ''git diff --cached --name-only''
      then Proc (Some 0) (''a.txt'' @ [CHR 0x0A] @ ''b.txt'') []
      else if c = Exec ''git diff --name-only''
      then Proc (Some 0) ''c.txt'' []
      else if c = Exec ''git stash list --pretty=format:\"%gd|%s|%cr\"''
      then Proc (Some 0)
             (if k < 13
              then ''stash@'' @ ''{0}|WIP on main|2 hours ago'' @ [CHR 0x0A] @ ''stash@'' @ ''{1}|WIP on dev|3 days ago''
              else ''stash@'' @ ''{0}|WIP on dev|3 days ago'') []
      else Proc (Some 0) [] [])"

definition demo :: env where
  "demo = \<lparr>shell = demo_shell, platform = ''linux'', argv = []\<rparr>"


section \<open>Lemmas: steps and rules\<close>

subsection \<open>Steps\<close>

lemma log_apply: "log k v w = (Ret (), w\<lparr>trace := trace w @ [Log k v]\<rparr>)"
  by (simp add: log_def emit_def)

lemma err_apply: "err k v w = (Ret (), w\<lparr>trace := trace w @ [Err k v]\<rparr>)"
  by (simp add: err_def emit_def)

lemma seq_apply: "seq m n w = bind m (\<lambda>_. n) w"
  by (simp add: seq_def)

lemma emits_apply: "emits evs w = (Ret (), w\<lparr>trace := trace w @ evs\<rparr>)"
  by (induction evs arbitrary: w) (auto simp: emits_def ret_def seq_def bind_def emit_def)

lemma spawnSync_apply:
  "spawnSync e f a w =
     (Ret (shell e (clock w) (Spawn f a)),
      w\<lparr>clock := Suc (clock w), trace := trace w @ [Ran (Spawn f a)]\<rparr>)"
  by (simp add: spawnSync_def call_def)

lemma run_apply:
  "run e c ign w =
    (if status (shell e (clock w) (Exec c)) = Some 0
     then Ret (trim (stdout (shell e (clock w) (Exec c))))
     else if ign then Ret [] else Throw (ExecError (Exec c)),
     w\<lparr>clock := Suc (clock w), trace := trace w @ [Ran (Exec c)]\<rparr>)"
  by (simp add: run_def execSync_def call_def bind_def try_catch_def ret_def throw_def)

subsection \<open>appends\<close>

lemma appendsI:
  "(\<And>w. \<exists>evs. trace (snd (m w)) = trace w @ evs \<and> P evs) \<Longrightarrow> appends P m"
  by (simp add: appends_def)

lemma appendsD:
  "appends P m \<Longrightarrow> \<exists>evs. trace (snd (m w)) = trace w @ evs \<and> P evs"
  by (simp add: appends_def)

lemma appends_weaken: "appends P m \<Longrightarrow> (\<And>evs. P evs \<Longrightarrow> Q evs) \<Longrightarrow> appends Q m"
  unfolding appends_def by blast

lemma appends_ret: "P [] \<Longrightarrow> appends P (ret x)"
  by (simp add: appends_def ret_def)

lemma appends_throw: "P [] \<Longrightarrow> appends P (throw x)"
  by (simp add: appends_def throw_def)

lemma appends_exit: "P [] \<Longrightarrow> appends P (exit n)"
  by (simp add: appends_def exit_def)

lemma appends_emit: "P [ev] \<Longrightarrow> appends P (emit ev)"
  by (simp add: appends_def emit_def)

lemma appends_call: "P [Ran c] \<Longrightarrow> appends P (call e c)"
  by (simp add: appends_def call_def)

lemma appends_bind:
  assumes m: "appends A m" and f: "\<And>x. appends B (f x)"
    and stop: "\<And>xs. A xs \<Longrightarrow> C xs" and go: "\<And>xs ys. A xs \<Longrightarrow> B ys \<Longrightarrow> C (xs @ ys)"
  shows "appends C (bind m f)"
proof (rule appendsI)
  fix w
  obtain r w1 where mw: "m w = (r, w1)" by (cases "m w")
  obtain xs where xs: "trace w1 = trace w @ xs" "A xs"
    using appendsD[OF m, of w] mw by auto
  show "\<exists>evs. trace (snd (bind m f w)) = trace w @ evs \<and> C evs"
  proof (cases r)
    case (Ret x)
    obtain ys where ys: "trace (snd (f x w1)) = trace w1 @ ys" "B ys"
      using appendsD[OF f, of x w1] by auto
    have "trace (snd (bind m f w)) = trace w @ (xs @ ys)"
      using mw Ret xs ys by (simp add: bind_def)
    then show ?thesis using go[OF xs(2) ys(2)] by blast
  qed (use mw xs stop in \<open>auto simp: bind_def\<close>)
qed

lemma appends_try_catch:
  assumes m: "appends A m" and h: "\<And>x. appends B (h x)"
    and stop: "\<And>xs. A xs \<Longrightarrow> C xs" and go: "\<And>xs ys. A xs \<Longrightarrow> B ys \<Longrightarrow> C (xs @ ys)"
  shows "appends C (try_catch m h)"
proof (rule appendsI)
  fix w
  obtain r w1 where mw: "m w = (r, w1)" by (cases "m w")
  obtain xs where xs: "trace w1 = trace w @ xs" "A xs"
    using appendsD[OF m, of w] mw by auto
  show "\<exists>evs. trace (snd (try_catch m h w)) = trace w @ evs \<and> C evs"
  proof (cases r)
    case (Throw x)
    obtain ys where ys: "trace (snd (h x w1)) = trace w1 @ ys" "B ys"
      using appendsD[OF h, of x w1] by auto
    have "trace (snd (try_catch m h w)) = trace w @ (xs @ ys)"
      using mw Throw xs ys by (simp add: try_catch_def)
    then show ?thesis using go[OF xs(2) ys(2)] by blast
  qed (use mw xs stop in \<open>auto simp: try_catch_def\<close>)
qed


lemma appends_if:
  "(c \<Longrightarrow> appends P m) \<Longrightarrow> (\<not> c \<Longrightarrow> appends P n) \<Longrightarrow> appends P (if c then m else n)"
  by simp

lemma appends_select_from:
  assumes "P [Asked k v (map (\<lambda>c. name_of (fst c)) choices)]"
    and "\<And>i. P [Asked k v (map (\<lambda>c. name_of (fst c)) choices), Got i]"
  shows "appends P (select_from k v name_of choices)"
  using assms
  by (auto simp: appends_def select_from_def Let_def split: list.splits input.splits)

lemma appends_multiselect_from:
  assumes "P [Asked k v (map name_of names)]"
    and "\<And>i. P [Asked k v (map name_of names), Got i]"
  shows "appends P (multiselect_from k v name_of names)"
  using assms
  by (auto simp: appends_def multiselect_from_def Let_def split: list.splits input.splits)

lemma appends_confirm:
  assumes "P [Asked k v []]" and "\<And>i. P [Asked k v [], Got i]"
  shows "appends P (confirm k v)"
  using assms
  by (auto simp: appends_def confirm_def Let_def split: list.splits input.splits)

subsection \<open>only\<close>

lemma only_weaken: "only ok m \<Longrightarrow> (\<And>ev. ok ev \<Longrightarrow> ok' ev) \<Longrightarrow> only ok' m"
  unfolding only_def by (erule appends_weaken) (auto simp: list_all_iff)

lemma only_ret: "only ok (ret x)"
  by (simp add: only_def appends_ret)

lemma only_throw: "only ok (throw x)"
  by (simp add: only_def appends_throw)

lemma only_exit: "only ok (exit n)"
  by (simp add: only_def appends_exit)

lemma only_emit: "ok ev \<Longrightarrow> only ok (emit ev)"
  by (simp add: only_def appends_emit)

lemma only_log: "ok (Log k v) \<Longrightarrow> only ok (log k v)"
  by (simp add: log_def only_emit)

lemma only_err: "ok (Err k v) \<Longrightarrow> only ok (err k v)"
  by (simp add: err_def only_emit)

lemma only_call: "ok (Ran c) \<Longrightarrow> only ok (call e c)"
  by (simp add: only_def appends_call)

lemma only_spawnSync: "ok (Ran (Spawn f a)) \<Longrightarrow> only ok (spawnSync e f a)"
  by (simp add: spawnSync_def only_call)

lemma only_bind: "only ok m \<Longrightarrow> (\<And>x. only ok (f x)) \<Longrightarrow> only ok (bind m f)"
  unfolding only_def by (erule appends_bind) auto

lemma only_seq: "only ok m \<Longrightarrow> only ok n \<Longrightarrow> only ok (seq m n)"
  by (simp add: seq_def only_bind)

lemma only_try_catch: "only ok m \<Longrightarrow> (\<And>x. only ok (h x)) \<Longrightarrow> only ok (try_catch m h)"
  unfolding only_def by (erule appends_try_catch) auto

lemma only_if: "(c \<Longrightarrow> only ok m) \<Longrightarrow> (\<not> c \<Longrightarrow> only ok n) \<Longrightarrow> only ok (if c then m else n)"
  by simp

lemma only_Let: "only ok (f x) \<Longrightarrow> only ok (Let x f)"
  by simp

lemma only_case_option:
  "only ok a \<Longrightarrow> (\<And>x. only ok (b x)) \<Longrightarrow> only ok (case v of None \<Rightarrow> a | Some x \<Rightarrow> b x)"
  by (cases v) auto

lemma only_case_prod: "(\<And>a b. only ok (f a b)) \<Longrightarrow> only ok (case p of (a, b) \<Rightarrow> f a b)"
  by (cases p) auto

lemma only_for_each: "(\<And>x. only ok (f x)) \<Longrightarrow> only ok (for_each f xs)"
  by (induction xs) (auto intro: only_ret only_seq)

lemma only_emits: "list_all ok evs \<Longrightarrow> only ok (emits evs)"
  unfolding emits_def by (induction evs) (auto intro: only_ret only_seq only_emit)

lemma only_execSync: "ok (Ran (Exec c)) \<Longrightarrow> only ok (execSync e c)"
  unfolding execSync_def by (intro only_bind only_call only_if only_ret only_throw)

lemma only_run: "ok (Ran (Exec c)) \<Longrightarrow> only ok (run e c ign)"
  unfolding run_def by (intro only_try_catch only_bind only_execSync only_if only_ret only_throw)

lemma only_select_from:
  "ok (Asked k v (map (\<lambda>c. name_of (fst c)) choices)) \<Longrightarrow> (\<And>i. ok (Got i)) \<Longrightarrow>
   only ok (select_from k v name_of choices)"
  unfolding only_def by (rule appends_select_from) auto

lemma only_select:
  "ok (Asked k v (map Some names)) \<Longrightarrow> (\<And>i. ok (Got i)) \<Longrightarrow> only ok (select k v names)"
  unfolding select_def by (rule only_select_from) (auto simp: comp_def)

lemma only_multiselect_from:
  "ok (Asked k v (map name_of names)) \<Longrightarrow> (\<And>i. ok (Got i)) \<Longrightarrow>
   only ok (multiselect_from k v name_of names)"
  unfolding only_def by (rule appends_multiselect_from) auto

lemma only_multiselect:
  "ok (Asked k v (map Some names)) \<Longrightarrow> (\<And>i. ok (Got i)) \<Longrightarrow> only ok (multiselect k v names)"
  unfolding multiselect_def by (rule only_multiselect_from)

lemma only_confirm: "ok (Asked k v []) \<Longrightarrow> (\<And>i. ok (Got i)) \<Longrightarrow> only ok (confirm k v)"
  unfolding only_def by (rule appends_confirm) auto

lemma submissions_events:
  "submissions valid ins = (r, rest, evs) \<Longrightarrow> ok Invalid \<Longrightarrow> (\<And>i. ok (Got i)) \<Longrightarrow> list_all ok evs"
  by (induction valid ins arbitrary: r rest evs rule: submissions.induct)
     (auto split: if_splits prod.splits)

lemma only_input_prompt:
  assumes "ok (Asked k v [])" "ok Invalid" "\<And>i. ok (Got i)"
  shows "only ok (input_prompt k v valid)"
  unfolding only_def appends_def
proof
  fix w :: world
  obtain r rest evs where s: "submissions valid (inputs w) = (r, rest, evs)"
    by (cases "submissions valid (inputs w)")
  from submissions_events[OF s assms(2,3)] assms(1) s
  show "\<exists>evs. trace (snd (input_prompt k v valid w)) = trace w @ evs \<and> list_all ok evs"
    by (simp add: input_prompt_def)
qed

lemmas only_intros =
  only_bind only_seq only_try_catch only_if only_Let only_case_option only_case_prod only_for_each
  only_ret only_throw only_exit only_emit only_log only_err only_call only_spawnSync only_emits
  only_execSync only_run only_select_from only_select only_multiselect_from only_multiselect
  only_confirm only_input_prompt

subsection \<open>Interrupts\<close>

lemma on_interrupt_calm: "calm m \<Longrightarrow> on_interrupt S L m"
  unfolding only_def appends_def on_interrupt_def
  by (metis (mono_tags, lifting) list_all_iff)

lemma on_interrupt_bind:
  assumes m: "on_interrupt S L m" and f: "\<And>x. on_interrupt S L (f x)" and S: "Ret () \<notin> S"
  shows "on_interrupt S L (bind m f)"
  unfolding on_interrupt_def
proof
  fix w
  obtain r w1 where mw: "m w = (r, w1)" by (cases "m w")
  obtain xs where xs: "trace w1 = trace w @ xs"
      "Got Interrupt \<in> set xs \<longrightarrow> void r \<in> S \<and> last xs \<in> L"
    using m mw unfolding on_interrupt_def by (metis fst_conv snd_conv)
  show "\<exists>evs. trace (snd (bind m f w)) = trace w @ evs \<and>
          (Got Interrupt \<in> set evs \<longrightarrow> void (fst (bind m f w)) \<in> S \<and> last evs \<in> L)"
  proof (cases r)
    case (Ret x)
    obtain ys where ys: "trace (snd (f x w1)) = trace w1 @ ys"
        "Got Interrupt \<in> set ys \<longrightarrow> void (fst (f x w1)) \<in> S \<and> last ys \<in> L"
      using f[of x] unfolding on_interrupt_def by blast
    have "Got Interrupt \<notin> set xs" using xs(2) Ret S by auto
    then show ?thesis
      using mw Ret xs ys by (intro exI[of _ "xs @ ys"]) (auto simp: bind_def last_append)
  qed (use mw xs in \<open>auto simp: bind_def\<close>)
qed

lemma on_interrupt_seq:
  "on_interrupt S L m \<Longrightarrow> on_interrupt S L n \<Longrightarrow> Ret () \<notin> S \<Longrightarrow> on_interrupt S L (seq m n)"
  by (simp add: seq_def on_interrupt_bind)

lemma on_interrupt_try_calm:
  assumes m: "calm m" and h: "\<And>x. on_interrupt S L (h x)"
  shows "on_interrupt S L (try_catch m h)"
  unfolding on_interrupt_def
proof
  fix w
  obtain r w1 where mw: "m w = (r, w1)" by (cases "m w")
  obtain xs where xs: "trace w1 = trace w @ xs" "Got Interrupt \<notin> set xs"
    using m mw unfolding only_def appends_def by (metis (mono_tags, lifting) list_all_iff snd_conv)
  show "\<exists>evs. trace (snd (try_catch m h w)) = trace w @ evs \<and>
          (Got Interrupt \<in> set evs \<longrightarrow> void (fst (try_catch m h w)) \<in> S \<and> last evs \<in> L)"
  proof (cases r)
    case (Throw x)
    obtain ys where ys: "trace (snd (h x w1)) = trace w1 @ ys"
        "Got Interrupt \<in> set ys \<longrightarrow> void (fst (h x w1)) \<in> S \<and> last ys \<in> L"
      using h[of x] unfolding on_interrupt_def by blast
    then show ?thesis
      using mw Throw xs by (intro exI[of _ "xs @ ys"]) (auto simp: try_catch_def last_append)
  qed (use mw xs in \<open>auto simp: try_catch_def\<close>)
qed

text \<open>A handler that ends every cancellation in the same way.\<close>

lemma on_interrupt_try_handler:
  assumes m: "on_interrupt {Throw Cancelled} L0 m"
    and hc: "\<And>w. \<exists>ys. trace (snd (h Cancelled w)) = trace w @ ys \<and> ys \<noteq> [] \<and> last ys \<in> L \<and>
                  void (fst (h Cancelled w)) \<in> S"
    and h: "\<And>x. on_interrupt S L (h x)"
  shows "on_interrupt S L (try_catch m h)"
  unfolding on_interrupt_def
proof
  fix w
  obtain r w1 where mw: "m w = (r, w1)" by (cases "m w")
  obtain xs where xs: "trace w1 = trace w @ xs" "Got Interrupt \<in> set xs \<longrightarrow> void r = Throw Cancelled"
    using m mw unfolding on_interrupt_def by (metis fst_conv snd_conv singletonD)
  show "\<exists>evs. trace (snd (try_catch m h w)) = trace w @ evs \<and>
          (Got Interrupt \<in> set evs \<longrightarrow> void (fst (try_catch m h w)) \<in> S \<and> last evs \<in> L)"
  proof (cases r)
    case (Throw x)
    obtain ys where ys: "trace (snd (h x w1)) = trace w1 @ ys"
        "Got Interrupt \<in> set ys \<longrightarrow> void (fst (h x w1)) \<in> S \<and> last ys \<in> L"
      using h[of x] unfolding on_interrupt_def by blast
    have "void (fst (h x w1)) \<in> S \<and> last (xs @ ys) \<in> L" if "Got Interrupt \<in> set xs"
    proof -
      from that xs(2) Throw have "x = Cancelled" by simp
      with hc[of w1] ys(1) show ?thesis by auto
    qed
    then show ?thesis
      using mw Throw xs ys by (intro exI[of _ "xs @ ys"]) (auto simp: try_catch_def last_append)
  qed (use mw xs in \<open>auto simp: try_catch_def\<close>)
qed

lemma on_interrupt_if:
  "(c \<Longrightarrow> on_interrupt S L m) \<Longrightarrow> (\<not> c \<Longrightarrow> on_interrupt S L n) \<Longrightarrow>
   on_interrupt S L (if c then m else n)"
  by simp

lemma on_interrupt_Let: "on_interrupt S L (f x) \<Longrightarrow> on_interrupt S L (Let x f)"
  by simp

lemma on_interrupt_case_option:
  "on_interrupt S L a \<Longrightarrow> (\<And>x. on_interrupt S L (b x)) \<Longrightarrow>
   on_interrupt S L (case v of None \<Rightarrow> a | Some x \<Rightarrow> b x)"
  by (cases v) auto

lemma on_interrupt_case_prod:
  "(\<And>a b. on_interrupt S L (f a b)) \<Longrightarrow> on_interrupt S L (case p of (a, b) \<Rightarrow> f a b)"
  by (cases p) auto

lemma on_interrupt_select_from:
  "Throw Cancelled \<in> S \<Longrightarrow> Got Interrupt \<in> L \<Longrightarrow> on_interrupt S L (select_from k v name_of choices)"
  by (auto simp: on_interrupt_def select_from_def Let_def split: list.splits input.splits)

lemma on_interrupt_select:
  "Throw Cancelled \<in> S \<Longrightarrow> Got Interrupt \<in> L \<Longrightarrow> on_interrupt S L (select k v names)"
  by (simp add: select_def on_interrupt_select_from)

lemma on_interrupt_multiselect_from:
  "Throw Cancelled \<in> S \<Longrightarrow> Got Interrupt \<in> L \<Longrightarrow>
   on_interrupt S L (multiselect_from k v name_of names)"
  by (auto simp: on_interrupt_def multiselect_from_def Let_def split: list.splits input.splits)

lemma on_interrupt_multiselect:
  "Throw Cancelled \<in> S \<Longrightarrow> Got Interrupt \<in> L \<Longrightarrow> on_interrupt S L (multiselect k v names)"
  by (simp add: multiselect_def on_interrupt_multiselect_from)

lemma on_interrupt_confirm:
  "Throw Cancelled \<in> S \<Longrightarrow> Got Interrupt \<in> L \<Longrightarrow> on_interrupt S L (confirm k v)"
  by (auto simp: on_interrupt_def confirm_def Let_def split: list.splits input.splits)

lemma submissions_interrupt:
  "submissions valid ins = (r, rest, evs) \<Longrightarrow> Got Interrupt \<in> set evs \<Longrightarrow>
   r = Throw Cancelled \<and> last evs = Got Interrupt"
  by (induction valid ins arbitrary: r rest evs rule: submissions.induct)
     (auto split: if_splits prod.splits)

lemma on_interrupt_input_prompt:
  assumes "Throw Cancelled \<in> S" "Got Interrupt \<in> L"
  shows "on_interrupt S L (input_prompt k v valid)"
  unfolding on_interrupt_def
proof
  fix w :: world
  obtain r rest evs where s: "submissions valid (inputs w) = (r, rest, evs)"
    by (cases "submissions valid (inputs w)")
  from submissions_interrupt[OF s] assms s
  show "\<exists>evs. trace (snd (input_prompt k v valid w)) = trace w @ evs \<and>
          (Got Interrupt \<in> set evs \<longrightarrow>
             void (fst (input_prompt k v valid w)) \<in> S \<and> last evs \<in> L)"
    by (auto simp: input_prompt_def)
qed

lemma on_interrupt_ret: "on_interrupt S L (ret x)"
  by (simp add: on_interrupt_calm only_ret)

lemma on_interrupt_throw: "on_interrupt S L (throw x)"
  by (simp add: on_interrupt_calm only_throw)

lemma on_interrupt_exit: "on_interrupt S L (exit n)"
  by (simp add: on_interrupt_calm only_exit)

lemma on_interrupt_log: "on_interrupt S L (log k v)"
  by (simp add: on_interrupt_calm only_log)

lemma on_interrupt_err: "on_interrupt S L (err k v)"
  by (simp add: on_interrupt_calm only_err)

lemma on_interrupt_spawnSync: "on_interrupt S L (spawnSync e f a)"
  by (simp add: on_interrupt_calm only_spawnSync)

lemma on_interrupt_call: "on_interrupt S L (call e c)"
  by (simp add: on_interrupt_calm only_call)

lemma on_interrupt_run: "on_interrupt S L (run e c ign)"
  by (simp add: on_interrupt_calm only_run)

lemma on_interrupt_for_each: "(\<And>x. calm (f x)) \<Longrightarrow> on_interrupt S L (for_each f xs)"
  by (simp add: on_interrupt_calm only_for_each)

lemma calm_emits: "Got Interrupt \<notin> set evs \<Longrightarrow> calm (emits evs)"
  by (rule only_emits) (simp add: list_all_iff, blast)

lemma on_interrupt_emits: "Got Interrupt \<notin> set evs \<Longrightarrow> on_interrupt S L (emits evs)"
  by (simp add: on_interrupt_calm calm_emits)

lemmas on_interrupt_intros =
  on_interrupt_bind on_interrupt_seq on_interrupt_if on_interrupt_Let on_interrupt_case_option
  on_interrupt_case_prod on_interrupt_select_from on_interrupt_select on_interrupt_multiselect_from
  on_interrupt_multiselect on_interrupt_confirm on_interrupt_input_prompt
  on_interrupt_ret on_interrupt_throw on_interrupt_exit on_interrupt_log on_interrupt_err
  on_interrupt_spawnSync on_interrupt_call on_interrupt_run on_interrupt_for_each on_interrupt_emits

section \<open>Interrupted prompts, tool by tool\<close>

subsection \<open>The queries are calm\<close>

lemma calm_getCommits: "calm (getCommits e n)"
  unfolding getCommits_def by (intro only_intros; simp)

lemma calm_getStagedFiles: "calm (getStagedFiles e)"
  unfolding getStagedFiles_def by (intro only_intros; simp)

lemma calm_getCurrentBranch: "calm (getCurrentBranch e)"
  unfolding getCurrentBranch_def by (intro only_intros; simp)

lemma calm_getRemoteBranch: "calm (getRemoteBranch e)"
  unfolding getRemoteBranch_def by (intro only_intros calm_getCurrentBranch; simp)

lemma calm_getCommitsInRange: "calm (getCommitsInRange e r)"
  unfolding getCommitsInRange_def by (intro only_intros; simp)

lemma calm_getRemoteDiff: "calm (getRemoteDiff e)"
  unfolding getRemoteDiff_def
  by (intro only_intros calm_getRemoteBranch calm_getCommitsInRange; simp)

lemma calm_isGitRepo: "calm (isGitRepo e)"
  unfolding isGitRepo_def by (intro only_intros; simp)

lemma calm_unstage_one: "calm (unstage_one e f)"
  unfolding unstage_one_def by (intro only_intros; simp)

lemma calm_getWorkingStatus: "calm (getWorkingStatus e)"
  unfolding getWorkingStatus_def by (intro only_intros; simp)

lemma calm_getStashList: "calm (getStashList e)"
  unfolding getStashList_def by (intro only_intros; simp)

lemma calm_hasChanges: "calm (hasChanges e)"
  unfolding hasChanges_def by (intro only_intros calm_getWorkingStatus; simp)

lemmas calm_queries = calm_getCommits calm_getStagedFiles calm_getCurrentBranch calm_getRemoteBranch
  calm_getCommitsInRange calm_getRemoteDiff calm_isGitRepo calm_getWorkingStatus calm_getStashList
  calm_hasChanges

lemmas on_interrupt_queries = calm_queries[THEN on_interrupt_calm]

subsection \<open>res.js\<close>

lemma on_interrupt_resetCommits: "on_interrupt {Throw Cancelled} {Got Interrupt} (resetCommits e)"
  unfolding resetCommits_def
  by (intro on_interrupt_intros on_interrupt_queries only_intros; simp)

lemma on_interrupt_unstageFiles: "on_interrupt {Throw Cancelled} {Got Interrupt} (unstageFiles e)"
  unfolding unstageFiles_def
  by (intro on_interrupt_intros on_interrupt_queries calm_unstage_one only_intros; simp)

lemma on_interrupt_resetToRemote: "on_interrupt {Throw Cancelled} {Got Interrupt} (resetToRemote e)"
  unfolding resetToRemote_def
  by (intro on_interrupt_intros on_interrupt_queries only_intros; simp)

lemma on_interrupt_resetToCommit: "on_interrupt {Throw Cancelled} {Got Interrupt} (resetToCommit e)"
  unfolding resetToCommit_def
  by (intro on_interrupt_intros on_interrupt_queries only_intros on_interrupt_try_calm; simp)

text \<open>The \<^verbatim>\<open>catch\<close> of the two main menus.\<close>

lemma on_interrupt_menu_catch:
  assumes "on_interrupt {Throw Cancelled} {Got Interrupt} body"
  shows "on_interrupt {Exit 0} {Log ''Operation cancelled (interrupt)'' []}
           (try_catch body
              (\<lambda>x. if x = Cancelled then seq (log ''Operation cancelled (interrupt)'' []) (exit 0)
                   else seq (err ''Operation failed:'' [exn_text x]) (exit 1)))"
  by (rule on_interrupt_try_handler[OF assms])
     (auto simp: seq_apply bind_def log_apply exit_def intro!: on_interrupt_intros)

lemma on_interrupt_res_main:
  "on_interrupt {Exit 0} {Log ''Operation cancelled (interrupt)'' []} (res_main e)"
  unfolding res_main_def
  by (intro on_interrupt_menu_catch on_interrupt_intros on_interrupt_queries
        on_interrupt_resetCommits on_interrupt_unstageFiles on_interrupt_resetToRemote
        on_interrupt_resetToCommit; simp)

lemma process_interrupt:
  assumes "on_interrupt {Exit c} L main" and "Got Interrupt \<in> set (snd (process main ins))"
  shows "fst (process main ins) = Some c \<and> last (snd (process main ins)) \<in> L"
proof -
  obtain r w' where run: "main (start ins) = (r, w')" by (cases "main (start ins)")
  obtain evs where evs: "trace w' = trace (start ins) @ evs"
      "Got Interrupt \<in> set evs \<longrightarrow> void r \<in> {Exit c} \<and> last evs \<in> L"
    using assms(1) run unfolding on_interrupt_def by (metis fst_conv snd_conv)
  have tr: "snd (process main ins) = evs"
    using run evs(1) by (cases r) (simp_all add: process_def start_def)
  with assms(2) evs(2) have "void r = Exit c" "last evs \<in> L" by auto
  then show ?thesis using run tr by (cases r) (simp_all add: process_def)
qed


subsection \<open>stash.js\<close>

lemma on_interrupt_stashChanges: "on_interrupt {Throw Cancelled} {Got Interrupt} (stashChanges e)"
  unfolding stashChanges_def
  by (intro on_interrupt_intros on_interrupt_queries only_intros; simp)

lemma on_interrupt_popStash: "on_interrupt {Throw Cancelled} {Got Interrupt} (popStash e r)"
  unfolding popStash_def
  by (intro on_interrupt_intros on_interrupt_queries only_intros; simp)

lemma on_interrupt_applyStash: "on_interrupt {Throw Cancelled} {Got Interrupt} (applyStash e r)"
  unfolding applyStash_def
  by (intro on_interrupt_intros on_interrupt_queries only_intros; simp)

lemma on_interrupt_dropStash: "on_interrupt {Throw Cancelled} {Got Interrupt} (dropStash e r)"
  unfolding dropStash_def
  by (intro on_interrupt_intros on_interrupt_queries only_intros; simp)

lemma on_interrupt_operateOnStash_with:
  assumes "on_interrupt {Throw Cancelled} {Got Interrupt} again"
  shows "on_interrupt {Throw Cancelled} {Got Interrupt} (operateOnStash_with again e r)"
  unfolding operateOnStash_with_def showStash_with_def
  by (intro on_interrupt_intros on_interrupt_queries on_interrupt_popStash on_interrupt_applyStash
        on_interrupt_dropStash assms only_intros; simp)

lemma on_interrupt_rounds:
  "on_interrupt {Throw Cancelled} {Got Interrupt} (operateOnStash_rounds n e r)"
proof (induction n)
  case 0
  have "on_interrupt {Throw Cancelled} {Got Interrupt} (\<lambda>w. (Blocked :: unit outcome, w))"
    by (simp add: on_interrupt_def)
  then show ?case by (simp add: on_interrupt_operateOnStash_with)
next
  case (Suc n)
  then show ?case by (simp add: on_interrupt_operateOnStash_with)
qed

lemma on_interrupt_operateOnStash:
  "on_interrupt {Throw Cancelled} {Got Interrupt} (operateOnStash e r)"
  using on_interrupt_rounds[of _ e r] unfolding on_interrupt_def operateOnStash_def by blast

lemma on_interrupt_clearAllStashes: "on_interrupt {Throw Cancelled} {Got Interrupt} (clearAllStashes e)"
  unfolding clearAllStashes_def
  by (intro on_interrupt_intros on_interrupt_queries only_intros; simp)

lemma on_interrupt_manageStashes: "on_interrupt {Throw Cancelled} {Got Interrupt} (manageStashes e)"
  unfolding manageStashes_def
  by (intro on_interrupt_intros on_interrupt_queries on_interrupt_clearAllStashes
        on_interrupt_operateOnStash only_intros; simp)

lemma on_interrupt_viewStashList: "on_interrupt {Throw Cancelled} {Got Interrupt} (viewStashList e)"
  unfolding viewStashList_def
  by (intro on_interrupt_intros on_interrupt_queries only_intros; simp)

lemma on_interrupt_stash_main:
  "on_interrupt {Exit 0} {Log ''Operation cancelled (interrupt)'' []} (stash_main e)"
  unfolding stash_main_def stash_menu_def
  by (intro on_interrupt_menu_catch on_interrupt_intros on_interrupt_queries
        on_interrupt_stashChanges on_interrupt_manageStashes on_interrupt_viewStashList; simp)

subsection \<open>bd.js and gcb.js\<close>

lemma calm_bd_run: "calm (bd_run e c)"
  unfolding bd_run_def by (intro only_intros; simp)

lemma calm_bd_getCurrentBranch: "calm (bd_getCurrentBranch e)"
  unfolding bd_getCurrentBranch_def by (intro only_intros calm_bd_run; simp)

lemma calm_getLocalBranches: "calm (getLocalBranches e)"
  unfolding getLocalBranches_def by (intro only_intros calm_bd_run; simp)

lemma calm_getRemoteBranches: "calm (getRemoteBranches e)"
  unfolding getRemoteBranches_def by (intro only_intros calm_bd_run; simp)

lemma calm_deleteLocal_loop: "calm (deleteLocal_loop e bs succ fail)"
  by (induction bs arbitrary: succ fail) (auto intro!: only_intros)

lemma calm_forceDelete_loop: "calm (forceDelete_loop e bs succ fail)"
  by (induction bs arbitrary: succ fail) (auto intro!: only_intros)

lemma calm_deleteRemote_loop: "calm (deleteRemote_loop e bs succ fail)"
  by (induction bs arbitrary: succ fail) (auto intro!: only_intros split: option.splits)

lemma calm_deleteLocalBranches: "calm (deleteLocalBranches e bs)"
  by (simp add: deleteLocalBranches_def calm_deleteLocal_loop)

lemma calm_forceDeleteLocalBranches: "calm (forceDeleteLocalBranches e bs)"
  by (simp add: forceDeleteLocalBranches_def calm_forceDelete_loop)

lemma calm_deleteRemoteBranches: "calm (deleteRemoteBranches e bs)"
  by (simp add: deleteRemoteBranches_def calm_deleteRemote_loop)

lemmas calm_bd = calm_bd_run calm_bd_getCurrentBranch calm_getLocalBranches calm_getRemoteBranches
  calm_deleteLocalBranches calm_forceDeleteLocalBranches calm_deleteRemoteBranches

lemmas on_interrupt_bd = calm_bd[THEN on_interrupt_calm]


lemma on_interrupt_bd_delete_flow:
  "on_interrupt {Throw Cancelled, Exit 1} bd_last (bd_delete_flow e current bs)"
  unfolding bd_delete_flow_def
  apply (intro on_interrupt_try_handler[where ?L0.0 = "{Got Interrupt}"]
          on_interrupt_intros on_interrupt_bd only_intros)
  apply (simp_all add: seq_apply bind_def log_apply exit_def)
  done

lemma on_interrupt_bd_main:
  "on_interrupt {Throw Cancelled, Exit 1} bd_last (bd_main e)"
  unfolding bd_main_def
  by (intro on_interrupt_try_calm on_interrupt_intros on_interrupt_bd on_interrupt_bd_delete_flow
        only_intros calm_bd; simp)


lemma on_interrupt_try_pass:
  assumes m: "on_interrupt S0 L m"
    and thrown: "\<And>x. Throw x \<in> S0 \<Longrightarrow> x = Cancelled"
    and pass: "\<And>r. r \<in> S0 \<Longrightarrow> (\<And>x. r \<noteq> Throw x) \<Longrightarrow> r \<in> S"
    and hc: "\<And>w. \<exists>ys. trace (snd (h Cancelled w)) = trace w @ ys \<and> ys \<noteq> [] \<and> last ys \<in> L \<and>
                  void (fst (h Cancelled w)) \<in> S"
    and h: "\<And>x. on_interrupt S L (h x)"
  shows "on_interrupt S L (try_catch m h)"
  unfolding on_interrupt_def
proof
  fix w
  obtain r w1 where mw: "m w = (r, w1)" by (cases "m w")
  obtain xs where xs: "trace w1 = trace w @ xs"
      "Got Interrupt \<in> set xs \<longrightarrow> void r \<in> S0 \<and> last xs \<in> L"
    using m mw unfolding on_interrupt_def by (metis fst_conv snd_conv)
  show "\<exists>evs. trace (snd (try_catch m h w)) = trace w @ evs \<and>
          (Got Interrupt \<in> set evs \<longrightarrow> void (fst (try_catch m h w)) \<in> S \<and> last evs \<in> L)"
  proof (cases r)
    case (Throw x)
    obtain ys where ys: "trace (snd (h x w1)) = trace w1 @ ys"
        "Got Interrupt \<in> set ys \<longrightarrow> void (fst (h x w1)) \<in> S \<and> last ys \<in> L"
      using h[of x] unfolding on_interrupt_def by blast
    have "void (fst (h x w1)) \<in> S \<and> last (xs @ ys) \<in> L" if "Got Interrupt \<in> set xs"
    proof -
      from that xs(2) Throw have "x = Cancelled" using thrown by simp
      with hc[of w1] ys(1) show ?thesis by auto
    qed
    then show ?thesis
      using mw Throw xs ys by (intro exI[of _ "xs @ ys"]) (auto simp: try_catch_def last_append)
  next
    case (Ret x)
    then show ?thesis using mw xs pass[of "Ret ()"] by (auto simp: try_catch_def)
  next
    case (Exit n)
    then show ?thesis using mw xs pass[of "Exit n"] by (auto simp: try_catch_def)
  next
    case Blocked
    then show ?thesis using mw xs pass[of Blocked] by (auto simp: try_catch_def)
  qed
qed

lemma on_interrupt_bd_tool:
  "on_interrupt {Exit 1}
     {Got Interrupt, Log ''Cancelled.'' [], Log ''Remote deletion cancelled.'' [], Err ''Fatal error:'' [[]]}
     (bd_tool e)"
  unfolding bd_tool_def
proof (rule on_interrupt_try_pass[where ?S0.0 = "{Throw Cancelled, Exit 1}"])
  show "on_interrupt {Throw Cancelled, Exit 1}
     {Got Interrupt, Log ''Cancelled.'' [], Log ''Remote deletion cancelled.'' [], Err ''Fatal error:'' [[]]}
     (bd_main e)"
    using on_interrupt_bd_main[of e] unfolding on_interrupt_def by blast
qed (auto simp: seq_apply bind_def err_apply exit_def intro!: on_interrupt_intros)

lemma calm_gcb_getBranches: "calm (gcb_getBranches e)"
  unfolding gcb_getBranches_def by (intro only_intros; simp)

lemma calm_copyToClipboardSync: "calm (copyToClipboardSync e t)"
  unfolding copyToClipboardSync_def by (intro only_intros; simp)

lemma on_interrupt_gcb_main: "on_interrupt {Exit 1} {Log ''Cancelled.'' []} (gcb_main e)"
  unfolding gcb_main_def
  apply (intro on_interrupt_try_handler[where ?L0.0 = "{Got Interrupt}"]
         on_interrupt_intros calm_gcb_getBranches[THEN on_interrupt_calm]
         calm_copyToClipboardSync[THEN on_interrupt_calm])
  apply (simp_all add: seq_apply bind_def log_apply exit_def)
  done

lemma calm_ck_getBranches: "calm (ck_getBranches e)"
  unfolding ck_getBranches_def by (intro only_intros; simp)

lemma calm_ck_getCurrentBranch: "calm (ck_getCurrentBranch e)"
  unfolding ck_getCurrentBranch_def by (intro only_intros; simp)

lemma calm_runGitCommand: "calm (runGitCommand e args)"
  unfolding runGitCommand_def by (intro only_intros; simp)

lemma calm_switchBranch: "calm (switchBranch e b)"
  unfolding switchBranch_def by (intro only_intros calm_runGitCommand; simp)

lemma calm_createAndSwitch: "calm (createAndSwitch e b)"
  unfolding createAndSwitch_def Let_def
  by (intro only_intros calm_ck_getCurrentBranch calm_runGitCommand; simp)

lemma on_interrupt_ck_main: "on_interrupt {Throw Cancelled} {Got Interrupt} (ck_main e)"
  unfolding ck_main_def interactiveSwitch_def
  by (intro on_interrupt_intros calm_ck_getBranches[THEN on_interrupt_calm]
        calm_switchBranch[THEN on_interrupt_calm] calm_createAndSwitch[THEN on_interrupt_calm]; simp)

lemma process_interrupt_throw:
  assumes "on_interrupt {Throw x} L main" and "Got Interrupt \<in> set (snd (process main ins))"
  shows "fst (process main ins) = Some 1"
proof -
  obtain r w' where run: "main (start ins) = (r, w')" by (cases "main (start ins)")
  obtain evs where evs: "trace w' = trace (start ins) @ evs"
      "Got Interrupt \<in> set evs \<longrightarrow> void r \<in> {Throw x} \<and> last evs \<in> L"
    using assms(1) run unfolding on_interrupt_def by (metis fst_conv snd_conv)
  have tr: "snd (process main ins) = evs"
    using run evs(1) by (cases r) (simp_all add: process_def start_def)
  with assms(2) evs(2) have "void r = Throw x" by auto
  then show ?thesis using run by (cases r) (simp_all add: process_def)
qed

section \<open>What the branch-deletion tool deletes\<close>

lemma yieldsI: "(\<And>w x w'. m w = (Ret x, w') \<Longrightarrow> Q x) \<Longrightarrow> yields m Q"
  unfolding yields_def by blast

lemma yieldsD: "yields m Q \<Longrightarrow> m w = (Ret x, w') \<Longrightarrow> Q x"
  unfolding yields_def by blast

lemma only_bind_yields:
  assumes m: "only ok m" and y: "yields m Q" and f: "\<And>x. Q x \<Longrightarrow> only ok (f x)"
  shows "only ok (bind m f)"
  unfolding only_def appends_def
proof
  fix w
  obtain r w1 where mw: "m w = (r, w1)" by (cases "m w")
  obtain xs where xs: "trace w1 = trace w @ xs" "list_all ok xs"
    using m mw unfolding only_def appends_def by (metis snd_conv)
  show "\<exists>evs. trace (snd (bind m f w)) = trace w @ evs \<and> list_all ok evs"
  proof (cases r)
    case (Ret x)
    have "Q x" using yieldsD[OF y] mw Ret by simp
    then obtain ys where ys: "trace (snd (f x w1)) = trace w1 @ ys" "list_all ok ys"
      using f[of x] unfolding only_def appends_def by blast
    then show ?thesis using mw Ret xs by (intro exI[of _ "xs @ ys"]) (simp add: bind_def)
  qed (use mw xs in \<open>auto simp: bind_def\<close>)
qed

lemma ticked_subset: "set (map fst (filter snd (zip names marks))) \<subseteq> set names"
proof
  fix x assume "x \<in> set (map fst (filter snd (zip names marks)))"
  then have "(x, True) \<in> set (zip names marks)" by force
  then show "x \<in> set names" by (rule set_zip_leftD)
qed

lemma multiselect_from_Ret:
  assumes "multiselect_from k v name_of names w = (Ret x, w')"
  shows "\<exists>marks. x = map fst (filter snd (zip names marks))"
proof (cases "inputs w")
  case Nil
  with assms show ?thesis by (simp add: multiselect_from_def)
next
  case (Cons i rest)
  show ?thesis
  proof (cases i)
    case (Ticks marks)
    with assms Cons have "x = map fst (filter snd (zip names marks))"
      by (simp add: multiselect_from_def)
    then show ?thesis by blast
  qed (use assms Cons in \<open>simp_all add: multiselect_from_def\<close>)
qed

lemma yields_multiselect: "yields (multiselect k v names) (\<lambda>picked. set picked \<subseteq> set names)"
proof (rule yieldsI)
  fix w x w'
  assume run: "multiselect k v names w = (Ret x, w')"
  from multiselect_from_Ret[OF run[unfolded multiselect_def]]
  obtain marks where x: "x = map fst (filter snd (zip names marks))" ..
  show "set x \<subseteq> set names" unfolding x by (rule ticked_subset)
qed

lemma seq_exit_not_Ret: "seq m (exit i) w \<noteq> (Ret x, w')"
proof -
  obtain r w1 where "m w = (r, w1)" by (cases "m w")
  then show ?thesis by (cases r) (simp_all add: seq_def bind_def exit_def)
qed

lemma yields_try_exit:
  assumes "yields m Q"
  shows "yields (try_catch m (\<lambda>x. if c x then seq (a x) (exit i) else seq (b x) (exit j))) Q"
proof (rule yieldsI)
  fix w x w'
  let ?h = "\<lambda>x. if c x then seq (a x) (exit i) else seq (b x) (exit j)"
  assume run: "try_catch m ?h w = (Ret x, w')"
  obtain r w1 where mw: "m w = (r, w1)" by (cases "m w")
  show "Q x"
  proof (cases r)
    case (Ret y)
    have "try_catch m ?h w = (Ret y, w1)"
      unfolding try_catch_def mw Ret by simp
    with run have "m w = (Ret x, w')" using mw Ret by simp
    then show ?thesis by (rule yieldsD[OF assms])
  next
    case (Throw y)
    have "try_catch m ?h w = ?h y w1"
      unfolding try_catch_def mw Throw by simp
    with run have "?h y w1 = (Ret x, w')" by simp
    then have False
      by (cases "c y") (simp_all add: seq_exit_not_Ret)
    then show ?thesis ..
  next
    case (Exit n)
    have "try_catch m ?h w = (Exit n, w1)"
      unfolding try_catch_def mw Exit by simp
    with run show ?thesis by simp
  next
    case Blocked
    have "try_catch m ?h w = (Blocked, w1)"
      unfolding try_catch_def mw Blocked by simp
    with run show ?thesis by simp
  qed
qed

lemma yields_deleteLocal_loop:
  "yields (deleteLocal_loop e bs succ fail)
     (\<lambda>(succ', fail'). set succ' \<subseteq> set succ \<union> set bs \<and> fst ` set fail' \<subseteq> fst ` set fail \<union> set bs)"
proof (induction bs arbitrary: succ fail)
  case Nil
  show ?case by (rule yieldsI) (auto simp: ret_def)
next
  case (Cons b bs)
  show ?case
  proof (rule yieldsI)
    fix w x w'
    assume run: "deleteLocal_loop e (b # bs) succ fail w = (Ret x, w')"
    let ?r = "shell e (clock w) (Spawn ''git'' [''branch'', ''-d'', b])"
    let ?w1 = "w\<lparr>clock := Suc (clock w), trace := trace w @ [Ran (Spawn ''git'' [''branch'', ''-d'', b])]\<rparr>"
    show "case x of (succ', fail') \<Rightarrow>
            set succ' \<subseteq> set succ \<union> set (b # bs) \<and> fst ` set fail' \<subseteq> fst ` set fail \<union> set (b # bs)"
    proof (cases "status ?r = Some 0")
      case True
      with run have "deleteLocal_loop e bs (succ @ [b]) fail ?w1 = (Ret x, w')"
        by (simp add: bind_def spawnSync_apply)
      from yieldsD[OF Cons.IH this] show ?thesis by auto
    next
      case False
      with run have "deleteLocal_loop e bs succ
           (fail @ [(b, or_else (stderr ?r) (or_else (stdout ?r) ''delete failed''))]) ?w1 = (Ret x, w')"
        by (simp add: bind_def spawnSync_apply)
      from yieldsD[OF Cons.IH this] show ?thesis by auto
    qed
  qed
qed

lemma yields_deleteLocalBranches:
  "yields (deleteLocalBranches e bs) (\<lambda>(succ, fail). fst ` set fail \<subseteq> set bs)"
proof (rule yieldsI)
  fix w x w'
  assume "deleteLocalBranches e bs w = (Ret x, w')"
  then have "deleteLocal_loop e bs [] [] w = (Ret x, w')"
    by (simp add: deleteLocalBranches_def)
  from yieldsD[OF yields_deleteLocal_loop this]
  show "case x of (succ, fail) \<Rightarrow> fst ` set fail \<subseteq> set bs"
    by (cases x) simp
qed


lemma spares_deleteLocal_loop: "c \<notin> set bs \<Longrightarrow> spares c (deleteLocal_loop e bs succ fail)"
  by (induction bs arbitrary: succ fail) (auto intro!: only_intros simp: deletes_def)

lemma spares_forceDelete_loop: "c \<notin> set bs \<Longrightarrow> spares c (forceDelete_loop e bs succ fail)"
  by (induction bs arbitrary: succ fail) (auto intro!: only_intros simp: deletes_def)

lemma spares_deleteRemote_loop: "spares c (deleteRemote_loop e bs succ fail)"
  by (induction bs arbitrary: succ fail) (auto intro!: only_intros simp: deletes_def split: option.splits)

lemma spares_bd_run: "spares c (bd_run e x)"
  unfolding bd_run_def by (intro only_intros; simp add: deletes_def)

lemma spares_getRemoteBranches: "spares c (getRemoteBranches e)"
  unfolding getRemoteBranches_def by (intro only_intros spares_bd_run; simp add: deletes_def)

lemma spares_getLocalBranches: "spares c (getLocalBranches e)"
  unfolding getLocalBranches_def by (intro only_intros spares_bd_run; simp add: deletes_def)

lemma only_bind_multiselect_exit:
  assumes "only ok (try_catch (multiselect k v names)
                     (\<lambda>x. if c x then seq (a x) (exit i) else seq (b x) (exit j)))"
    and "\<And>picked. set picked \<subseteq> set names \<Longrightarrow> only ok (f picked)"
  shows "only ok (bind (try_catch (multiselect k v names)
                     (\<lambda>x. if c x then seq (a x) (exit i) else seq (b x) (exit j))) f)"
  using assms(1) yields_try_exit[OF yields_multiselect] assms(2) by (rule only_bind_yields)

lemma only_bind_deleteLocalBranches:
  assumes "only ok (deleteLocalBranches e bs)"
    and "\<And>succ fail. fst ` set fail \<subseteq> set bs \<Longrightarrow> only ok (g succ fail)"
  shows "only ok (bind (deleteLocalBranches e bs) (\<lambda>(succ, fail). g succ fail))"
proof (rule only_bind_yields[OF assms(1) yields_deleteLocalBranches])
  fix x :: "string list \<times> (string \<times> string) list"
  assume "case x of (succ, fail) \<Rightarrow> fst ` set fail \<subseteq> set bs"
  then show "only ok (case x of (succ, fail) \<Rightarrow> g succ fail)"
    using assms(2) by (cases x) simp
qed

lemma spares_deleteLocalBranches: "c \<notin> set bs \<Longrightarrow> spares c (deleteLocalBranches e bs)"
  by (simp add: deleteLocalBranches_def spares_deleteLocal_loop)

lemma spares_forceDeleteLocalBranches: "c \<notin> set bs \<Longrightarrow> spares c (forceDeleteLocalBranches e bs)"
  by (simp add: forceDeleteLocalBranches_def spares_forceDelete_loop)

lemma spares_deleteRemoteBranches: "spares c (deleteRemoteBranches e bs)"
  by (simp add: deleteRemoteBranches_def spares_deleteRemote_loop)

lemma selected_spares:
  assumes "c \<notin> set bs" "set picked \<subseteq> set (''__all__'' # bs)"
  shows "c \<notin> set (if ''__all__'' \<in> set picked then bs else filter (\<lambda>s. s \<noteq> ''__all__'') picked)"
  using assms by auto

lemma spares_bd_delete_flow:
  assumes "c \<notin> set bs"
  shows "spares c (bd_delete_flow e current bs)"
  unfolding bd_delete_flow_def Let_def
  apply (intro only_bind_multiselect_exit only_bind_deleteLocalBranches only_intros
        spares_getRemoteBranches spares_deleteLocalBranches spares_forceDeleteLocalBranches
        spares_deleteRemoteBranches selected_spares[OF assms])
  apply (simp_all add: deletes_def)
  subgoal premises prems for picked x fail xa
  proof -
    have "c \<notin> set (if ''__all__'' \<in> set picked then bs else filter (\<lambda>s. s \<noteq> ''__all__'') picked)"
      using assms prems(1) by (intro selected_spares) simp_all
    with prems(4) show ?thesis by (rule_tac notI) (erule notE, erule subsetD[rotated], assumption)
  qed
  done

lemma snd_process: "snd (process m ins) = trace (snd (m (start ins)))"
proof -
  obtain r w where mw: "m (start ins) = (r, w)" by (cases "m (start ins)")
  then show ?thesis by (cases r) (simp_all add: process_def)
qed

lemma fst_process:
  "fst (process m ins) =
     (case fst (m (start ins)) of Ret _ \<Rightarrow> Some 0 | Exit n \<Rightarrow> Some n | Throw _ \<Rightarrow> Some 1 | Blocked \<Rightarrow> None)"
proof -
  obtain r w where mw: "m (start ins) = (r, w)" by (cases "m (start ins)")
  then show ?thesis by (cases r) (simp_all add: process_def)
qed

lemma onlyD: "only ok m \<Longrightarrow> \<exists>evs. trace (snd (m w)) = trace w @ evs \<and> list_all ok evs"
  unfolding only_def appends_def by blast

lemma only_at_bind:
  assumes m: "only ok m"
    and f: "\<And>x w'. m w = (Ret x, w') \<Longrightarrow> \<exists>evs. trace (snd (f x w')) = trace w' @ evs \<and> list_all ok evs"
  shows "\<exists>evs. trace (snd (bind m f w)) = trace w @ evs \<and> list_all ok evs"
proof -
  obtain r w1 where mw: "m w = (r, w1)" by (cases "m w")
  obtain xs where xs: "trace w1 = trace w @ xs" "list_all ok xs"
    using onlyD[OF m, of w] mw by auto
  show ?thesis
  proof (cases r)
    case (Ret x)
    obtain ys where ys: "trace (snd (f x w1)) = trace w1 @ ys" "list_all ok ys"
      using f[of x w1] mw Ret by blast
    then show ?thesis using mw Ret xs by (intro exI[of _ "xs @ ys"]) (simp add: bind_def)
  qed (use mw xs in \<open>auto simp: bind_def\<close>)
qed

lemma only_at_try:
  assumes m: "\<exists>evs. trace (snd (m w)) = trace w @ evs \<and> list_all ok evs"
    and h: "\<And>x. only ok (h x)"
  shows "\<exists>evs. trace (snd (try_catch m h w)) = trace w @ evs \<and> list_all ok evs"
proof -
  obtain r w1 where mw: "m w = (r, w1)" by (cases "m w")
  obtain xs where xs: "trace w1 = trace w @ xs" "list_all ok xs"
    using m mw by auto
  show ?thesis
  proof (cases r)
    case (Throw x)
    obtain ys where ys: "trace (snd (h x w1)) = trace w1 @ ys" "list_all ok ys"
      using onlyD[OF h, of x w1] by blast
    then show ?thesis using mw Throw xs by (intro exI[of _ "xs @ ys"]) (simp add: try_catch_def)
  qed (use mw xs in \<open>auto simp: try_catch_def\<close>)
qed

lemma bd_probe_clock:
  assumes "try_catch (seq (bd_run e c) (ret ())) (\<lambda>_. seq (err k vs) (exit i)) w = (Ret x, w')"
  shows "clock w' = Suc (clock w)"
  using assms
  by (auto simp add: try_catch_def seq_def bind_def bd_run_def execSync_def call_def ret_def throw_def
        err_def emit_def exit_def split: if_splits)

lemma bd_getCurrentBranch_at:
  assumes "bd_getCurrentBranch e w = (r, w')"
  shows "r = result_at (bd_getCurrentBranch e) (clock w)"
  using assms
  by (simp add: result_at_def bd_getCurrentBranch_def try_catch_def bind_def bd_run_def execSync_def
        call_def ret_def throw_def split: if_splits)

lemma spares_bd_rest:
  "spares c (bind (getLocalBranches e) (\<lambda>branches.
     let localBranches = filter (\<lambda>b. Some b \<noteq> Some c) branches in
     if length localBranches = 0
     then seq (log ''No local branch to delete (besides the current one).'' []) (exit 0)
     else bd_delete_flow e (Some c) localBranches))"
  unfolding Let_def
  by (intro only_intros spares_getLocalBranches spares_bd_delete_flow; simp add: deletes_def)

lemma spares_bd_probe:
  "spares c (try_catch (seq (bd_run e x) (ret ()))
        (\<lambda>_. seq (err ''Not a git repository, enter a repository first.'' []) (exit 1)))"
  by (intro only_intros spares_bd_run; simp add: deletes_def)

lemma spares_bd_getCurrentBranch: "spares c (bd_getCurrentBranch e)"
  unfolding bd_getCurrentBranch_def by (intro only_intros spares_bd_run; simp add: deletes_def)

section \<open>The queries\<close>

lemma reads_apply:
  "reads m \<Longrightarrow>
   m w = (result_at m (clock w),
          w\<lparr>clock := clock_after m (clock w), trace := trace w @ events_at m (clock w)\<rparr>)"
  by (simp add: reads_def)

lemma reads_ret: "reads (ret x)"
  by (simp add: reads_def ret_def result_at_def clock_after_def events_at_def)

lemma reads_throw: "reads (throw x)"
  by (simp add: reads_def throw_def result_at_def clock_after_def events_at_def)

lemma reads_exit: "reads (exit n)"
  by (simp add: reads_def exit_def result_at_def clock_after_def events_at_def)

lemma reads_emit: "reads (emit ev)"
  by (simp add: reads_def emit_def result_at_def clock_after_def events_at_def)

lemma reads_log: "reads (log k v)"
  by (simp add: log_def reads_emit)

lemma reads_err: "reads (err k v)"
  by (simp add: err_def reads_emit)

lemma reads_call: "reads (call e c)"
  by (simp add: reads_def call_def result_at_def clock_after_def events_at_def)

lemma reads_spawnSync: "reads (spawnSync e f a)"
  by (simp add: spawnSync_def reads_call)

lemma reads_bind:
  assumes m: "reads m" and f: "\<And>x. reads (f x)"
  shows "reads (bind m f)"
  unfolding reads_def
proof
  fix w :: world
  let ?a = "\<lparr>inputs = [], clock = clock w, trace = []\<rparr>"
  let ?r = "result_at m (clock w)" and ?k = "clock_after m (clock w)" and ?t = "events_at m (clock w)"
  have mw: "m w = (?r, w\<lparr>clock := ?k, trace := trace w @ ?t\<rparr>)"
    by (rule reads_apply[OF m])
  have ma: "m ?a = (?r, ?a\<lparr>clock := ?k, trace := ?t\<rparr>)"
    using reads_apply[OF m, of ?a] by simp
  show "bind m f w = (result_at (bind m f) (clock w),
          w\<lparr>clock := clock_after (bind m f) (clock w), trace := trace w @ events_at (bind m f) (clock w)\<rparr>)"
  proof (cases ?r)
    case (Ret x)
    let ?w1 = "w\<lparr>clock := ?k, trace := trace w @ ?t\<rparr>" and ?a1 = "?a\<lparr>clock := ?k, trace := ?t\<rparr>"
    have fw: "f x ?w1 = (result_at (f x) ?k,
                ?w1\<lparr>clock := clock_after (f x) ?k, trace := trace ?w1 @ events_at (f x) ?k\<rparr>)"
      using reads_apply[OF f, of x ?w1] by simp
    have fa: "f x ?a1 = (result_at (f x) ?k,
                ?a1\<lparr>clock := clock_after (f x) ?k, trace := trace ?a1 @ events_at (f x) ?k\<rparr>)"
      using reads_apply[OF f, of x ?a1] by simp
    have bw: "bind m f w = f x ?w1" by (simp add: bind_def mw Ret)
    have ba: "bind m f ?a = f x ?a1" by (simp add: bind_def ma Ret)
    show ?thesis
      unfolding result_at_def[of "bind m f"] clock_after_def[of "bind m f"] events_at_def[of "bind m f"]
      unfolding bw ba fw fa by simp
  next
    case (Throw x)
    have "bind m f w = (Throw x, w\<lparr>clock := ?k, trace := trace w @ ?t\<rparr>)"
      by (simp add: bind_def mw Throw)
    moreover have "bind m f ?a = (Throw x, ?a\<lparr>clock := ?k, trace := ?t\<rparr>)"
      by (simp add: bind_def ma Throw)
    ultimately show ?thesis
      unfolding result_at_def[of "bind m f"] clock_after_def[of "bind m f"] events_at_def[of "bind m f"]
      by simp
  next
    case (Exit n)
    have "bind m f w = (Exit n, w\<lparr>clock := ?k, trace := trace w @ ?t\<rparr>)"
      by (simp add: bind_def mw Exit)
    moreover have "bind m f ?a = (Exit n, ?a\<lparr>clock := ?k, trace := ?t\<rparr>)"
      by (simp add: bind_def ma Exit)
    ultimately show ?thesis
      unfolding result_at_def[of "bind m f"] clock_after_def[of "bind m f"] events_at_def[of "bind m f"]
      by simp
  next
    case Blocked
    have "bind m f w = (Blocked, w\<lparr>clock := ?k, trace := trace w @ ?t\<rparr>)"
      by (simp add: bind_def mw Blocked)
    moreover have "bind m f ?a = (Blocked, ?a\<lparr>clock := ?k, trace := ?t\<rparr>)"
      by (simp add: bind_def ma Blocked)
    ultimately show ?thesis
      unfolding result_at_def[of "bind m f"] clock_after_def[of "bind m f"] events_at_def[of "bind m f"]
      by simp
  qed
qed

lemma reads_seq: "reads m \<Longrightarrow> reads n \<Longrightarrow> reads (seq m n)"
  by (simp add: seq_def reads_bind)

lemma reads_try_catch:
  assumes m: "reads m" and h: "\<And>x. reads (h x)"
  shows "reads (try_catch m h)"
  unfolding reads_def
proof
  fix w :: world
  let ?a = "\<lparr>inputs = [], clock = clock w, trace = []\<rparr>"
  let ?r = "result_at m (clock w)" and ?k = "clock_after m (clock w)" and ?t = "events_at m (clock w)"
  have mw: "m w = (?r, w\<lparr>clock := ?k, trace := trace w @ ?t\<rparr>)"
    by (rule reads_apply[OF m])
  have ma: "m ?a = (?r, ?a\<lparr>clock := ?k, trace := ?t\<rparr>)"
    using reads_apply[OF m, of ?a] by simp
  show "try_catch m h w = (result_at (try_catch m h) (clock w),
          w\<lparr>clock := clock_after (try_catch m h) (clock w),
            trace := trace w @ events_at (try_catch m h) (clock w)\<rparr>)"
  proof (cases ?r)
    case (Throw x)
    let ?w1 = "w\<lparr>clock := ?k, trace := trace w @ ?t\<rparr>" and ?a1 = "?a\<lparr>clock := ?k, trace := ?t\<rparr>"
    have fw: "h x ?w1 = (result_at (h x) ?k,
                ?w1\<lparr>clock := clock_after (h x) ?k, trace := trace ?w1 @ events_at (h x) ?k\<rparr>)"
      using reads_apply[OF h, of x ?w1] by simp
    have fa: "h x ?a1 = (result_at (h x) ?k,
                ?a1\<lparr>clock := clock_after (h x) ?k, trace := trace ?a1 @ events_at (h x) ?k\<rparr>)"
      using reads_apply[OF h, of x ?a1] by simp
    have bw: "try_catch m h w = h x ?w1" by (simp add: try_catch_def mw Throw)
    have ba: "try_catch m h ?a = h x ?a1" by (simp add: try_catch_def ma Throw)
    show ?thesis
      unfolding result_at_def[of "try_catch m h"] clock_after_def[of "try_catch m h"]
        events_at_def[of "try_catch m h"]
      unfolding bw ba fw fa by simp
  next
    case (Ret x)
    have "try_catch m h w = (Ret x, w\<lparr>clock := ?k, trace := trace w @ ?t\<rparr>)"
      by (simp add: try_catch_def mw Ret)
    moreover have "try_catch m h ?a = (Ret x, ?a\<lparr>clock := ?k, trace := ?t\<rparr>)"
      by (simp add: try_catch_def ma Ret)
    ultimately show ?thesis
      unfolding result_at_def[of "try_catch m h"] clock_after_def[of "try_catch m h"]
        events_at_def[of "try_catch m h"]
      by simp
  next
    case (Exit n)
    have "try_catch m h w = (Exit n, w\<lparr>clock := ?k, trace := trace w @ ?t\<rparr>)"
      by (simp add: try_catch_def mw Exit)
    moreover have "try_catch m h ?a = (Exit n, ?a\<lparr>clock := ?k, trace := ?t\<rparr>)"
      by (simp add: try_catch_def ma Exit)
    ultimately show ?thesis
      unfolding result_at_def[of "try_catch m h"] clock_after_def[of "try_catch m h"]
        events_at_def[of "try_catch m h"]
      by simp
  next
    case Blocked
    have "try_catch m h w = (Blocked, w\<lparr>clock := ?k, trace := trace w @ ?t\<rparr>)"
      by (simp add: try_catch_def mw Blocked)
    moreover have "try_catch m h ?a = (Blocked, ?a\<lparr>clock := ?k, trace := ?t\<rparr>)"
      by (simp add: try_catch_def ma Blocked)
    ultimately show ?thesis
      unfolding result_at_def[of "try_catch m h"] clock_after_def[of "try_catch m h"]
        events_at_def[of "try_catch m h"]
      by simp
  qed
qed

lemma reads_if: "(c \<Longrightarrow> reads m) \<Longrightarrow> (\<not> c \<Longrightarrow> reads n) \<Longrightarrow> reads (if c then m else n)"
  by simp

lemma reads_Let: "reads (f x) \<Longrightarrow> reads (Let x f)"
  by simp

lemma reads_case_option:
  "reads a \<Longrightarrow> (\<And>x. reads (b x)) \<Longrightarrow> reads (case v of None \<Rightarrow> a | Some x \<Rightarrow> b x)"
  by (cases v) auto

lemma reads_for_each: "(\<And>x. reads (f x)) \<Longrightarrow> reads (for_each f xs)"
  by (induction xs) (auto intro: reads_ret reads_seq)

lemma reads_emits: "reads (emits evs)"
  unfolding emits_def by (rule reads_for_each) (rule reads_emit)

lemma reads_execSync: "reads (execSync e c)"
  unfolding execSync_def by (intro reads_bind reads_call reads_if reads_ret reads_throw)

lemma reads_run: "reads (run e c ign)"
  unfolding run_def by (intro reads_try_catch reads_bind reads_execSync reads_if reads_ret reads_throw)

lemmas reads_intros =
  reads_bind reads_seq reads_try_catch reads_if reads_Let reads_case_option reads_for_each
  reads_ret reads_throw reads_exit reads_emit reads_log reads_err reads_call reads_spawnSync
  reads_emits reads_execSync reads_run





lemma reads_getCommits: "reads (getCommits e n)"
  unfolding getCommits_def by (intro reads_intros)

lemma reads_getStagedFiles: "reads (getStagedFiles e)"
  unfolding getStagedFiles_def by (intro reads_intros)

lemma reads_isGitRepo: "reads (isGitRepo e)"
  unfolding isGitRepo_def by (intro reads_intros)

lemma reads_getWorkingStatus: "reads (getWorkingStatus e)"
  unfolding getWorkingStatus_def by (intro reads_intros)

lemma reads_getStashList: "reads (getStashList e)"
  unfolding getStashList_def by (intro reads_intros)

lemma reads_hasChanges: "reads (hasChanges e)"
  unfolding hasChanges_def by (intro reads_intros reads_getWorkingStatus)

lemma only_events_at: "only ok m \<Longrightarrow> list_all ok (events_at m k)"
  using appendsD[of "list_all ok" m "\<lparr>inputs = [], clock = k, trace = []\<rparr>"]
  by (auto simp: only_def events_at_def)

lemma harmless_commands: "list_all harmless evs \<Longrightarrow> filter mutating (commands evs) = []"
  by (induction evs rule: commands.induct) (auto simp: harmless_def)



lemma quiet_simps [simp]:
  "quiet (Log k v)" "quiet (Err k v)" "quiet Invalid" "\<not> quiet (Got i)" "\<not> quiet (Asked k v ns)"
  "quiet (Ran c) = (\<not> mutating c)"
  by (simp_all add: quiet_def)

lemma harmless_simps [simp]:
  "harmless (Log k v)" "harmless (Err k v)" "harmless Invalid" "harmless (Got i)" "harmless (Asked k v ns)"
  "harmless (Ran c) = (\<not> mutating c)"
  by (simp_all add: harmless_def)






section \<open>Claims\<close>

lemma commands_append [simp]: "commands (xs @ ys) = commands xs @ commands ys"
  by (induction xs rule: commands.induct) auto

lemma prompts_append [simp]: "prompts (xs @ ys) = prompts xs @ prompts ys"
  by (induction xs rule: prompts.induct) auto

lemma unstage_one_apply:
  "unstage_one e f w =
     (Ret (), w\<lparr>clock := Suc (clock w),
               trace := trace w @ unstage_report e (clock w) [f]\<rparr>)"
  by (simp add: unstage_one_def bind_def spawnSync_apply log_apply)

lemma unstage_loop:
  "for_each (unstage_one e) files w =
     (Ret (), w\<lparr>clock := clock w + length files,
               trace := trace w @ unstage_report e (clock w) files\<rparr>)"
proof (induction files arbitrary: w)
  case Nil
  show ?case by (simp add: ret_def)
next
  case (Cons f fs)
  let ?w1 = "w\<lparr>clock := Suc (clock w), trace := trace w @ unstage_report e (clock w) [f]\<rparr>"
  have one: "unstage_one e f w = (Ret (), ?w1)"
    by (rule unstage_one_apply)
  have "for_each (unstage_one e) (f # fs) w = for_each (unstage_one e) fs ?w1"
    by (simp only: for_each.simps seq_def bind_def one prod.case outcome.case)
  also have "\<dots> = (Ret (), ?w1\<lparr>clock := clock ?w1 + length fs,
                               trace := trace ?w1 @ unstage_report e (clock ?w1) fs\<rparr>)"
    by (rule Cons.IH)
  finally show ?case by simp
qed

lemma commands_unstage_report:
  "commands (unstage_report e k files) = map (\<lambda>f. Spawn ''git'' [''reset'', ''HEAD'', str f]) files"
  by (induction files arbitrary: k) auto


text \<open>
  C10. When the branch-deletion tool reads the name of the current branch (its second
  command, after the probe of the repository), no run of the tool, whatever the
  operator ticks and answers and whatever the shell replies, runs
  \<^verbatim>\<open>git branch -d\<close> or \<^verbatim>\<open>git branch -D\<close> with that name.
\<close>

theorem C10_current_branch_never_deleted:
  assumes "result_at (bd_getCurrentBranch e) 1 = Ret (Some current)"
  shows "list_all (\<lambda>ev. \<not> deletes current ev) (snd (process (bd_tool e) ins))"
proof -
  let ?ok = "\<lambda>ev. \<not> deletes current ev"
  have main: "\<exists>evs. trace (snd (bd_main e (start ins))) = trace (start ins) @ evs \<and> list_all ?ok evs"
    unfolding bd_main_def seq_def
  proof (rule only_at_bind[OF spares_bd_probe[unfolded seq_def]])
    fix x w1
    assume "try_catch (bind (bd_run e ''git rev-parse --is-inside-work-tree'') (\<lambda>_. ret ()))
              (\<lambda>_. bind (err ''Not a git repository, enter a repository first.'' []) (\<lambda>_. exit 1))
              (start ins) = (Ret x, w1)"
    then have clock: "clock w1 = 1"
      using bd_probe_clock[of e _ _ _ _ "start ins" x w1] by (simp add: seq_def start_def)
    show "\<exists>evs. trace (snd (bind (bd_getCurrentBranch e) (\<lambda>current.
             bind (getLocalBranches e) (\<lambda>branches.
               let localBranches = filter (\<lambda>b. Some b \<noteq> current) branches in
               if length localBranches = 0
               then bind (log ''No local branch to delete (besides the current one).'' []) (\<lambda>_. exit 0)
               else bd_delete_flow e current localBranches)) w1)) = trace w1 @ evs \<and> list_all ?ok evs"
    proof (rule only_at_bind[OF spares_bd_getCurrentBranch])
      fix cur w2
      assume "bd_getCurrentBranch e w1 = (Ret cur, w2)"
      then have cur: "cur = Some current"
        using bd_getCurrentBranch_at[of e w1 "Ret cur" w2] clock assms by simp
      show "\<exists>evs. trace (snd (bind (getLocalBranches e) (\<lambda>branches.
               let localBranches = filter (\<lambda>b. Some b \<noteq> cur) branches in
               if length localBranches = 0
               then bind (log ''No local branch to delete (besides the current one).'' []) (\<lambda>_. exit 0)
               else bd_delete_flow e cur localBranches) w2)) = trace w2 @ evs \<and> list_all ?ok evs"
        unfolding cur using onlyD[OF spares_bd_rest[of current e, unfolded seq_def], of w2] by simp
    qed
  qed
  have "\<exists>evs. trace (snd (bd_tool e (start ins))) = trace (start ins) @ evs \<and> list_all ?ok evs"
    unfolding bd_tool_def
    by (rule only_at_try[where m = "bd_main e" and w = "start ins", OF main])
       (intro only_intros; simp add: deletes_def)
  then show ?thesis by (simp add: snd_process start_def)
qed

text \<open>In the example repository, with everything ticked and the forced deletion
  accepted: \<open>dev\<close> and \<open>old\<close> are deleted, \<open>main\<close> is not.\<close>

theorem C10_witness:
  "result_at (bd_getCurrentBranch demo) 1 = Ret (Some ''main'')
   \<and> list_all (\<lambda>ev. \<not> deletes ''main'' ev)
        (snd (process (bd_tool demo) [Ticks [True], Answer True, Answer True, Answer False]))
   \<and> commands (snd (process (bd_tool demo) [Ticks [True], Answer True, Answer True, Answer False])) =
       [Exec ''git rev-parse --is-inside-work-tree'', Exec ''git rev-parse --abbrev-ref HEAD'',
        Exec ''git for-each-ref --format='%(refname:short)' refs/heads'',
        Spawn ''git'' [''branch'', ''-d'', ''dev''], Spawn ''git'' [''branch'', ''-d'', ''old''],
        Spawn ''git'' [''branch'', ''-D'', ''old'']]"
proof (intro conjI)
  show current: "result_at (bd_getCurrentBranch demo) 1 = Ret (Some ''main'')"
    by code_simp
  show "list_all (\<lambda>ev. \<not> deletes ''main'' ev)
        (snd (process (bd_tool demo) [Ticks [True], Answer True, Answer True, Answer False]))"
    by (rule C10_current_branch_never_deleted[OF current])
  show "commands (snd (process (bd_tool demo) [Ticks [True], Answer True, Answer True, Answer False])) =
       [Exec ''git rev-parse --is-inside-work-tree'', Exec ''git rev-parse --abbrev-ref HEAD'',
        Exec ''git for-each-ref --format='%(refname:short)' refs/heads'',
        Spawn ''git'' [''branch'', ''-d'', ''dev''], Spawn ''git'' [''branch'', ''-d'', ''old''],
        Spawn ''git'' [''branch'', ''-D'', ''old'']]"
    by code_simp
qed

text \<open>
  C3. In the branch-deletion tool, an interrupt of the first prompt, before any
  command that changes the repository, ends the process with code 1, not 0.
\<close>

theorem C3_counterexample:
  "process (bd_tool demo) [Interrupt] =
     (Some 1,
      [Ran (Exec ''git rev-parse --is-inside-work-tree''),
       Ran (Exec ''git rev-parse --abbrev-ref HEAD''),
       Ran (Exec ''git for-each-ref --format='%(refname:short)' refs/heads''),
       Asked ''Select the local branches to delete:'' [''main''] [Some ''__all__'', Some ''dev'', Some ''old''],
       Got Interrupt,
       Log ''Cancelled.'' []])
   \<and> filter mutating (commands (snd (process (bd_tool demo) [Interrupt]))) = []"
  by code_simp

text \<open>
  C3, amended. When the operator interrupts a prompt, the reset tool and the stash tool
  end with code 0 and their last line is the cancellation message; the branch-deletion
  tool, the tool that copies a branch name and the tool that switches branches end with
  code 1, whether or not a command that changes the repository ran before (the tool
  that copies a branch name prints its cancellation message last).
\<close>

theorem C3_interrupt_exit_codes:
  "(Got Interrupt \<in> set (snd (process (res_main e) ins)) \<longrightarrow>
      fst (process (res_main e) ins) = Some 0 \<and>
      last (snd (process (res_main e) ins)) = Log ''Operation cancelled (interrupt)'' [])
 \<and> (Got Interrupt \<in> set (snd (process (stash_main e) ins)) \<longrightarrow>
      fst (process (stash_main e) ins) = Some 0 \<and>
      last (snd (process (stash_main e) ins)) = Log ''Operation cancelled (interrupt)'' [])
 \<and> (Got Interrupt \<in> set (snd (process (bd_tool e) ins)) \<longrightarrow>
      fst (process (bd_tool e) ins) = Some 1)
 \<and> (Got Interrupt \<in> set (snd (process (gcb_main e) ins)) \<longrightarrow>
      fst (process (gcb_main e) ins) = Some 1 \<and>
      last (snd (process (gcb_main e) ins)) = Log ''Cancelled.'' [])
 \<and> (Got Interrupt \<in> set (snd (process (ck_main e) ins)) \<longrightarrow>
      fst (process (ck_main e) ins) = Some 1)"
  using process_interrupt_throw[OF on_interrupt_ck_main, of e ins]
        process_interrupt[OF on_interrupt_res_main, of e ins]
        process_interrupt[OF on_interrupt_stash_main, of e ins]
        process_interrupt[OF on_interrupt_bd_tool, of e ins]
        process_interrupt[OF on_interrupt_gcb_main, of e ins]
  by simp

text \<open>In the example repository each of the five tools comes to a prompt, and the
  operator interrupts it.\<close>

theorem C3_witness:
  "Got Interrupt \<in> set (snd (process (res_main demo) [Interrupt]))
   \<and> Got Interrupt \<in> set (snd (process (stash_main demo) [Interrupt]))
   \<and> Got Interrupt \<in> set (snd (process (bd_tool demo) [Interrupt]))
   \<and> Got Interrupt \<in> set (snd (process (gcb_main demo) [Interrupt]))
   \<and> Got Interrupt \<in> set (snd (process (ck_main demo) [Interrupt]))
   \<and> fst (process (res_main demo) [Interrupt]) = Some 0
   \<and> last (snd (process (res_main demo) [Interrupt])) = Log ''Operation cancelled (interrupt)'' []
   \<and> fst (process (stash_main demo) [Interrupt]) = Some 0
   \<and> last (snd (process (stash_main demo) [Interrupt])) = Log ''Operation cancelled (interrupt)'' []
   \<and> fst (process (bd_tool demo) [Interrupt]) = Some 1
   \<and> fst (process (gcb_main demo) [Interrupt]) = Some 1
   \<and> last (snd (process (gcb_main demo) [Interrupt])) = Log ''Cancelled.'' []
   \<and> fst (process (ck_main demo) [Interrupt]) = Some 1"
proof -
  have res: "Got Interrupt \<in> set (snd (process (res_main demo) [Interrupt]))" by code_simp
  have stash: "Got Interrupt \<in> set (snd (process (stash_main demo) [Interrupt]))" by code_simp
  have bd: "Got Interrupt \<in> set (snd (process (bd_tool demo) [Interrupt]))" by code_simp
  have gcb: "Got Interrupt \<in> set (snd (process (gcb_main demo) [Interrupt]))" by code_simp
  have ck: "Got Interrupt \<in> set (snd (process (ck_main demo) [Interrupt]))" by code_simp
  from C3_interrupt_exit_codes[of demo "[Interrupt]"] res stash bd gcb ck
  show ?thesis by simp
qed

subsection \<open>Outside a repository\<close>










subsection \<open>Sync to remote, in sync\<close>



subsection \<open>Select all\<close>

lemma multiselect_from_Ticks:
  assumes "inputs w = Ticks marks # rest"
  shows "multiselect_from k v f names w =
           (Ret (map fst (filter snd (zip names marks))),
            w\<lparr>inputs := rest, trace := trace w @ [Asked k v (map f names), Got (Ticks marks)]\<rparr>)"
  using assms by (simp add: multiselect_from_def)

lemma events_at_getStagedFiles:
  "events_at (getStagedFiles e) k = [Ran (Exec ''git diff --cached --name-status'')]"
  by (simp add: events_at_def getStagedFiles_def try_catch_def bind_def run_apply ret_def)

lemma ticked_all: "map fst (filter snd (zip names (replicate (length names) True))) = names"
  by (induction names) auto

lemma selection_select_all:
  "unstage_selection staged (map fst (filter snd (zip (Some ''__all__'' # names) (True # marks))))
     = map filename staged"
  by (simp add: unstage_selection_def)

lemma selection_every_file:
  "unstage_selection staged
     (map fst (filter snd (zip (Some ''__all__'' # map filename staged)
                               (False # replicate (length staged) True))))
     = map filename staged"
proof -
  have "map fst (filter snd (zip (map filename staged) (replicate (length staged) True)))
          = map filename staged"
    using ticked_all[of "map filename staged"] by simp
  then have picked: "map fst (filter snd (zip (Some ''__all__'' # map filename staged)
                               (False # replicate (length staged) True))) = map filename staged"
    by simp
  show ?thesis
  proof (cases "Some ''__all__'' \<in> set (map filename staged)")
    case True
    then show ?thesis unfolding picked unstage_selection_def by simp
  next
    case False
    then have "\<forall>s \<in> set (map filename staged). s \<noteq> Some ''__all__''"
      by blast
    then have "filter (\<lambda>s. s \<noteq> Some ''__all__'') (map filename staged) = map filename staged"
      by (rule filter_True)
    with False show ?thesis unfolding picked unstage_selection_def by simp
  qed
qed

lemma unstageFiles_commands:
  assumes staged: "result_at (getStagedFiles e) (clock w) = Ret staged"
    and ins: "inputs w = Ticks marks # rest"
    and sel: "unstage_selection staged
                (map fst (filter snd (zip (Some ''__all__'' # map filename staged) marks)))
              = map filename staged"
  shows "commands (fresh (unstageFiles e) w) =
           Exec ''git diff --cached --name-status'' #
           map (\<lambda>s. Spawn ''git'' [''reset'', ''HEAD'', str (filename s)]) staged"
proof (cases "staged = []")
  case True
  then show ?thesis
    unfolding unstageFiles_def
    by (simp add: fresh_def seq_apply bind_def log_apply reads_apply[OF reads_getStagedFiles]
          staged events_at_getStagedFiles)
next
  case False
  then show ?thesis
    unfolding unstageFiles_def
    by (simp add: fresh_def seq_apply bind_def log_apply reads_apply[OF reads_getStagedFiles]
          staged events_at_getStagedFiles multiselect_from_Ticks[OF _] ins sel Let_def
          unstage_loop emits_apply commands_unstage_report comp_def)
qed

text \<open>
  C6. For the staged files that \<^verbatim>\<open>getStagedFiles\<close> returns, a response to the
  multi-select with the synthetic entry ticked (whatever else is ticked) and the
  response with every file ticked and the synthetic entry not ticked make
  \<^verbatim>\<open>unstageFiles\<close> run the same commands: after the query of the staged files, one
  \<^verbatim>\<open>git reset HEAD <file>\<close> for each staged file, in the order of the list, and no
  command for the synthetic entry.
\<close>

theorem C6_select_all_is_every_file:
  assumes "result_at (getStagedFiles e) k = Ret staged"
    and "clock w = k" and "inputs w = Ticks (True # marks) # rest"
    and "clock w' = k" and "inputs w' = Ticks (False # replicate (length staged) True) # rest'"
  shows "commands (fresh (unstageFiles e) w) =
           Exec ''git diff --cached --name-status'' #
           map (\<lambda>s. Spawn ''git'' [''reset'', ''HEAD'', str (filename s)]) staged
       \<and> commands (fresh (unstageFiles e) w') = commands (fresh (unstageFiles e) w)"
proof -
  have a: "commands (fresh (unstageFiles e) w) =
           Exec ''git diff --cached --name-status'' #
           map (\<lambda>s. Spawn ''git'' [''reset'', ''HEAD'', str (filename s)]) staged"
    using assms(1,2,3) by (intro unstageFiles_commands[where marks = "True # marks"] selection_select_all) simp_all
  have b: "commands (fresh (unstageFiles e) w') =
           Exec ''git diff --cached --name-status'' #
           map (\<lambda>s. Spawn ''git'' [''reset'', ''HEAD'', str (filename s)]) staged"
    using assms(1,4,5)
    by (intro unstageFiles_commands[where marks = "False # replicate (length staged) True"]
          selection_every_file) simp_all
  show ?thesis using a b by simp
qed

text \<open>The two staged files of the example repository.\<close>

theorem C6_witness:
  "result_at (getStagedFiles demo) 0 =
     Ret [Staged (Some ''a.txt'') (Some ''M'') ''modified'', Staged (Some ''b.txt'') (Some ''A'') ''new file'']
   \<and> commands (fresh (unstageFiles demo) \<lparr>inputs = [Ticks [True]], clock = 0, trace = []\<rparr>) =
       [Exec ''git diff --cached --name-status'',
        Spawn ''git'' [''reset'', ''HEAD'', ''a.txt''], Spawn ''git'' [''reset'', ''HEAD'', ''b.txt'']]
   \<and> commands (fresh (unstageFiles demo) \<lparr>inputs = [Ticks [False, True, True]], clock = 0, trace = []\<rparr>) =
       commands (fresh (unstageFiles demo) \<lparr>inputs = [Ticks [True]], clock = 0, trace = []\<rparr>)"
proof -
  have staged: "result_at (getStagedFiles demo) 0 =
     Ret [Staged (Some ''a.txt'') (Some ''M'') ''modified'', Staged (Some ''b.txt'') (Some ''A'') ''new file'']"
    by code_simp
  from C6_select_all_is_every_file[OF staged,
      of "\<lparr>inputs = [Ticks [True]], clock = 0, trace = []\<rparr>" "[]" "[]"
         "\<lparr>inputs = [Ticks [False, True, True]], clock = 0, trace = []\<rparr>" "[]"]
    staged
  show ?thesis by (simp add: str_def)
qed

subsection \<open>Rewind with mode mixed\<close>

lemma select_Pick:
  assumes "inputs w = Pick i # rest" and "i < length names"
  shows "select k v names w =
           (Ret (names ! i),
            w\<lparr>inputs := rest, trace := trace w @ [Asked k v (map Some names), Got (Pick i)]\<rparr>)"
  using assms by (simp add: select_def select_from_def comp_def)

lemma input_prompt_Typed:
  assumes "inputs w = Typed s # rest" and "valid s"
  shows "input_prompt k v valid w =
           (Ret s, w\<lparr>inputs := rest, trace := trace w @ [Asked k v [], Got (Typed s)]\<rparr>)"
  using assms by (simp add: input_prompt_def)

lemma for_each_step:
  assumes "\<And>x w. f x w = (Ret (), w\<lparr>trace := trace w @ [g x]\<rparr>)"
  shows "for_each f xs w = (Ret (), w\<lparr>trace := trace w @ map g xs\<rparr>)"
proof (induction xs arbitrary: w)
  case Nil
  show ?case by (simp add: ret_def)
next
  case (Cons x xs)
  let ?w1 = "w\<lparr>trace := trace w @ [g x]\<rparr>"
  have one: "f x w = (Ret (), ?w1)" by (rule assms)
  have "for_each f (x # xs) w = for_each f xs ?w1"
    by (simp only: for_each.simps seq_def bind_def one prod.case outcome.case)
  also have "\<dots> = (Ret (), ?w1\<lparr>trace := trace ?w1 @ map g xs\<rparr>)"
    by (rule Cons.IH)
  finally show ?case by simp
qed

lemma for_each_log_prod:
  "for_each (\<lambda>(a, b). log (k a b) (v a b)) xs w =
     (Ret (), w\<lparr>trace := trace w @ map (\<lambda>(a, b). Log (k a b) (v a b)) xs\<rparr>)"
  by (rule for_each_step) (simp add: log_apply split: prod.splits)

lemma commands_map_Log_prod [simp]: "commands (map (\<lambda>(a, b). Log (k a b) (v a b)) xs) = []"
  by (induction xs) auto

lemma getCommits_Ret: "\<exists>cs. result_at (getCommits e n) k = Ret cs"
  by (simp add: result_at_def getCommits_def try_catch_def bind_def run_apply ret_def throw_def)

lemma harmless_getCommits: "only harmless (getCommits e n)"
  unfolding getCommits_def by (intro only_intros; simp add: mutating_def)

lemma mutating_reset [simp]: "mutating (Spawn ''git'' (''reset'' # args))"
  by (simp add: mutating_def mutating_args_def)

lemma not_mutating_log [simp]:
  "\<not> mutating (Exec (CHR ''g'' # CHR ''i'' # CHR ''t'' # CHR '' '' # CHR ''l'' # s))"
  by (simp add: mutating_def)

lemma dec_digits: "\<forall>c \<in> set (dec n). 48 \<le> (of_char c :: nat) \<and> (of_char c :: nat) \<le> 57"
proof (induction n rule: dec.induct)
  case (1 n)
  show ?case
  proof (cases "n < 10")
    case True
    then show ?thesis by (subst dec.simps) simp
  next
    case False
    have "n mod 10 < 10" by simp
    then have "48 \<le> (of_char (char_of (48 + n mod 10)) :: nat) \<and> (of_char (char_of (48 + n mod 10)) :: nat) \<le> 57"
      by simp
    with False 1 show ?thesis by (subst dec.simps) auto
  qed
qed

lemma dec_not_Nil: "dec n \<noteq> []"
  by (subst dec.simps) simp

lemma digit_not_space: "48 \<le> (of_char c :: nat) \<Longrightarrow> \<not> js_space c"
  by (auto simp: js_space_def)

lemma digit_val_digit:
  "48 \<le> (of_char c :: nat) \<Longrightarrow> (of_char c :: nat) \<le> 57 \<Longrightarrow> digit_val c = of_char c - 48"
  by (simp add: digit_val_def Let_def)

lemma digits_val_snoc: "digits_val r (ds @ [c]) = digits_val r ds * r + digit_val c"
  by (simp add: digits_val_def)

lemma digits_val_dec: "digits_val 10 (dec n) = n"
proof (induction n rule: dec.induct)
  case (1 n)
  show ?case
  proof (cases "n < 10")
    case True
    then show ?thesis by (subst dec.simps) (simp add: digits_val_def digit_val_def Let_def)
  next
    case False
    have "digit_val (char_of (48 + n mod 10)) = n mod 10"
      by (simp add: digit_val_def Let_def)
    with False 1 show ?thesis by (subst dec.simps) (simp add: digits_val_snoc)
  qed
qed

lemma parseInt_dec: "parseInt (dec n) = Some (int n)"
proof -
  obtain c cs where d: "dec n = c # cs" using dec_not_Nil[of n] by (cases "dec n") auto
  have all: "\<forall>c \<in> set (dec n). 48 \<le> (of_char c :: nat) \<and> (of_char c :: nat) \<le> 57"
    by (rule dec_digits)
  have c: "48 \<le> (of_char c :: nat)" "(of_char c :: nat) \<le> 57" using all d by auto
  have nospace: "dropWhile js_space (dec n) = dec n"
    using digit_not_space[OF c(1)] d by simp
  have sign: "\<not> starts_with (dec n) ''-''" "\<not> starts_with (dec n) ''+''"
    using c d by auto
  have hex: "\<not> starts_with (dec n) ''0x''" "\<not> starts_with (dec n) ''0X''"
  proof -
    have "cs = [] \<or> (\<exists>x xs. cs = x # xs \<and> 48 \<le> (of_char x :: nat) \<and> (of_char x :: nat) \<le> 57)"
      using all d by (cases cs) auto
    then show "\<not> starts_with (dec n) ''0x''" "\<not> starts_with (dec n) ''0X''"
      unfolding d by auto
  qed
  have "\<forall>c \<in> set (dec n). digit_val c < 10"
    using all by (auto simp: digit_val_digit)
  then have tw: "takeWhile (\<lambda>c. digit_val c < 10) (dec n) = dec n"
    by (simp add: takeWhile_eq_all_conv)
  show ?thesis
    by (simp add: parseInt_def Let_def nospace sign hex tw dec_not_Nil digits_val_dec)
qed

lemma parseInt_presets:
  "parseInt ''1'' = Some 1" "parseInt ''2'' = Some 2" "parseInt ''3'' = Some 3" "parseInt ''5'' = Some 5"
  by code_simp+

text \<open>
  C7. For every \<open>N\<close> from 1 to 99: when the operator chooses the custom count and
  types a text that \<^verbatim>\<open>parseInt\<close> reads as \<open>N\<close> (the decimal numeral of \<open>N\<close> is
  one), or picks the preset count \<open>N\<close>, and then picks the mode \<open>mixed\<close>, the only
  command of \<^verbatim>\<open>resetCommits\<close> that changes the repository is one
  \<^verbatim>\<open>git reset --mixed HEAD~N\<close>, whatever the shell replies.
\<close>

theorem C7_rewind_mixed:
  assumes "1 \<le> N" and "N \<le> 99"
    and "inputs w = Pick 4 # Typed s # Pick 1 # rest \<and> parseInt s = Some (int N)
       \<or> inputs w = Pick i # Pick 1 # rest \<and> i < 4 \<and> N = [1, 2, 3, 5] ! i"
  shows "parseInt (dec N) = Some (int N)
       \<and> filter mutating (commands (fresh (resetCommits e) w)) =
           [Spawn ''git'' [''reset'', ''--mixed'', ''HEAD~'' @ dec N]]"
proof
  show "parseInt (dec N) = Some (int N)" by (rule parseInt_dec)
  obtain cs where cs: "result_at (getCommits e (Some (int N))) (clock w) = Ret cs"
    using getCommits_Ret by blast
  have quiet: "filter mutating (commands (events_at (getCommits e (Some (int N))) (clock w))) = []"
    by (intro harmless_commands only_events_at harmless_getCommits)
  from assms(3)
  show "filter mutating (commands (fresh (resetCommits e) w)) =
           [Spawn ''git'' [''reset'', ''--mixed'', ''HEAD~'' @ dec N]]"
  proof (elim disjE conjE)
    assume ins: "inputs w = Pick 4 # Typed s # Pick 1 # rest" and count: "parseInt s = Some (int N)"
    show ?thesis
      unfolding resetCommits_def
      using assms(1,2)
      by (simp add: Let_def count fresh_def seq_apply bind_def log_apply reads_apply[OF reads_getCommits] cs
          for_each_log_prod select_Pick input_prompt_Typed ins ret_def spawnSync_apply run_apply
          emits_apply err_apply exit_def quiet num_str_def)
  next
    assume ins: "inputs w = Pick i # Pick 1 # rest" and i: "i < 4" and N: "N = [1, 2, 3, 5] ! i"
    from i consider "i = 0" | "i = 1" | "i = 2" | "i = 3" by linarith
    then show ?thesis
    proof cases
      case 1
      with N have N1: "N = 1" by simp
      show ?thesis
        unfolding resetCommits_def
        using cs quiet
        by (simp add: Let_def N1 1 parseInt_presets fresh_def seq_apply bind_def log_apply
              reads_apply[OF reads_getCommits]
              for_each_log_prod select_Pick ins ret_def spawnSync_apply run_apply
              emits_apply err_apply exit_def num_str_def)
    next
      case 2
      with N have N1: "N = 2" by simp
      show ?thesis
        unfolding resetCommits_def
        using cs quiet
        by (simp add: Let_def N1 2 parseInt_presets fresh_def seq_apply bind_def log_apply
              reads_apply[OF reads_getCommits]
              for_each_log_prod select_Pick ins ret_def spawnSync_apply run_apply
              emits_apply err_apply exit_def num_str_def)
    next
      case 3
      with N have N1: "N = 3" by simp
      show ?thesis
        unfolding resetCommits_def
        using cs quiet
        by (simp add: Let_def N1 3 parseInt_presets fresh_def seq_apply bind_def log_apply
              reads_apply[OF reads_getCommits]
              for_each_log_prod select_Pick ins ret_def spawnSync_apply run_apply
              emits_apply err_apply exit_def num_str_def)
    next
      case 4
      with N have N1: "N = 5" by simp
      show ?thesis
        unfolding resetCommits_def
        using cs quiet
        by (simp add: Let_def N1 4 parseInt_presets fresh_def seq_apply bind_def log_apply
              reads_apply[OF reads_getCommits]
              for_each_log_prod select_Pick ins ret_def spawnSync_apply run_apply
              emits_apply err_apply exit_def num_str_def)
    qed
  qed
qed

text \<open>Rewinding 42 commits by the custom count, and 5 by the preset.\<close>

theorem C7_witness:
  "parseInt ''42'' = Some 42
   \<and> filter mutating (commands (fresh (resetCommits demo)
         \<lparr>inputs = [Pick 4, Typed ''42'', Pick 1], clock = 0, trace = []\<rparr>)) =
       [Spawn ''git'' [''reset'', ''--mixed'', ''HEAD~42'']]
   \<and> filter mutating (commands (fresh (resetCommits demo)
         \<lparr>inputs = [Pick 3, Pick 1], clock = 0, trace = []\<rparr>)) =
       [Spawn ''git'' [''reset'', ''--mixed'', ''HEAD~5'']]"
proof -
  have p: "parseInt ''42'' = Some (int 42)" by code_simp
  have d: "dec 42 = ''42''" "dec 5 = ''5''" by code_simp+
  from C7_rewind_mixed[of 42 "\<lparr>inputs = [Pick 4, Typed ''42'', Pick 1], clock = 0, trace = []\<rparr>"
         "''42''" "[]" 0 demo]
       C7_rewind_mixed[of 5 "\<lparr>inputs = [Pick 3, Pick 1], clock = 0, trace = []\<rparr>"
         "[]" "[]" 3 demo] p d
  show ?thesis by simp
qed

end
